theory Spec2Isabelle
  imports Complex_Main "HOL-Library.Sublist"
begin

section \<open>JavaScript values\<close>

text \<open>
  The values that cross the boundary between the proxy and the upstream service are JSON
  documents read with the property accesses of JavaScript. A number is a double in the
  source; here a finite number is a rational, which is enough for the two things the
  code does with numbers (testing truthiness and passing them on).
\<close>

datatype jsnumber = NaN | PosInf | NegInf | Fin rat

datatype jsval =
    JUndefined
  | JNull
  | JBool bool
  | JNumber jsnumber
  | JString string
  | JArray "jsval list"
  | JObject "(string \<times> jsval) list"

datatype exn = TypeError | Error string

text \<open>Truthiness (ToBoolean).\<close>

fun truthy :: "jsval \<Rightarrow> bool" where
  "truthy JUndefined = False"
| "truthy JNull = False"
| "truthy (JBool b) = b"
| "truthy (JNumber n) = (n \<noteq> NaN \<and> n \<noteq> Fin 0)"
| "truthy (JString s) = (s \<noteq> [])"
| "truthy (JArray xs) = True"
| "truthy (JObject kvs) = True"

fun nullish :: "jsval \<Rightarrow> bool" where
  "nullish JUndefined = True"
| "nullish JNull = True"
| "nullish v = False"

text \<open>
  \<open>field v k\<close> is \<open>v.k\<close> for a value \<open>v\<close> that is neither \<open>null\<close> nor \<open>undefined\<close>
  and one of the property names the source uses (\<open>data\<close>, \<open>messages\<close>, \<open>extra\<close>,
  \<open>wanx\<close>, \<open>task_id\<close>, \<open>id\<close>, \<open>response_id\<close>, \<open>message_id\<close>, \<open>task_status\<close>,
  \<open>status\<close>, \<open>error\<close>, \<open>message\<close>, \<open>response.created\<close>, \<open>choices\<close>, \<open>delta\<close>,
  \<open>content\<close>, \<open>usage\<close>, \<open>num\<close>, \<open>type\<close>, \<open>text\<close>, \<open>image\<close>, \<open>file\<close>, \<open>success\<close>, \<open>result\<close>,
  \<open>url\<close>, \<open>video_url\<close>, \<open>parent_id\<close>): none of them is a property of a string, an array,
  a number or a boolean, so only an object can answer with something else than
  \<open>undefined\<close>. In an object the first binding of a key is the one that counts.
\<close>

fun field :: "jsval \<Rightarrow> string \<Rightarrow> jsval" where
  "field (JObject kvs) k = (case map_of kvs k of Some v \<Rightarrow> v | None \<Rightarrow> JUndefined)"
| "field v k = JUndefined"

text \<open>\<open>getProp v k\<close> is the plain access \<open>v.k\<close>, which throws on \<open>null\<close> and \<open>undefined\<close>.\<close>

definition getProp :: "jsval \<Rightarrow> string \<Rightarrow> exn + jsval" where
  "getProp v k = (if nullish v then Inl TypeError else Inr (field v k))"

text \<open>\<open>opt_field v k\<close> is the optional chain \<open>v?.k\<close>.\<close>

definition opt_field :: "jsval \<Rightarrow> string \<Rightarrow> jsval" where
  "opt_field v k = (if nullish v then JUndefined else field v k)"

text \<open>
  \<open>elem0 v\<close> is \<open>v[0]\<close> for a value that is neither \<open>null\<close> nor \<open>undefined\<close>: the
  first element of an array, the first character of a string, the property \<open>"0"\<close> of
  an object.
\<close>

fun elem0 :: "jsval \<Rightarrow> jsval" where
  "elem0 (JArray []) = JUndefined"
| "elem0 (JArray (x # xs)) = x"
| "elem0 (JString []) = JUndefined"
| "elem0 (JString (c # cs)) = JString [c]"
| "elem0 (JObject kvs) = (case map_of kvs ''0'' of Some v \<Rightarrow> v | None \<Rightarrow> JUndefined)"
| "elem0 v = JUndefined"

definition opt_elem0 :: "jsval \<Rightarrow> jsval" where
  "opt_elem0 v = (if nullish v then JUndefined else elem0 v)"

text \<open>\<open>a || b\<close>.\<close>

definition js_or :: "jsval \<Rightarrow> jsval \<Rightarrow> jsval" where
  "js_or a b = (if truthy a then a else b)"

section \<open>Strings\<close>

text \<open>
  A \<open>char\<close> stands for a UTF-16 code unit below 256. \<open>isWhiteSpace\<close> is the set that
  \<open>String.prototype.trim\<close> strips (white space and line terminators) in that range.
\<close>

definition isWhiteSpace :: "char \<Rightarrow> bool" where
  "isWhiteSpace c = (c \<in> set [CHR 0x09, CHR 0x0A, CHR 0x0B, CHR 0x0C, CHR 0x0D, CHR 0x20, CHR 0xA0])"

definition trim :: "string \<Rightarrow> string" where
  "trim s = rev (dropWhile isWhiteSpace (rev (dropWhile isWhiteSpace s)))"

definition startsWith :: "string \<Rightarrow> string \<Rightarrow> bool" where
  "startsWith s p = (take (length p) s = p)"

fun strIncludes :: "string \<Rightarrow> string \<Rightarrow> bool" where
  "strIncludes [] sub = (sub = [])"
| "strIncludes (c # cs) sub = (startsWith (c # cs) sub \<or> strIncludes cs sub)"

section \<open>The request payload (buildPayloadV2)\<close>

record feature_config =
  thinking_enabled :: bool
  output_schema :: string
  research_mode :: "string option"
  auto_thinking :: "bool option"
  thinking_format :: "string option"
  auto_search :: "bool option"

record new_message =
  m_fid :: string
  m_parentId :: jsval
  m_role :: string
  m_content :: jsval
  m_chat_type :: string
  m_timestamp :: string
  m_user_action :: string
  m_models :: "string list"
  m_files :: jsval
  m_childrenIds :: "string list"
  m_feature_config :: feature_config

record payload =
  p_stream :: bool
  p_incremental_output :: bool
  p_chat_id :: jsval
  p_chat_mode :: string
  p_messages :: "new_message list"
  p_model :: string
  p_parent_id :: jsval
  p_timestamp :: string
  p_size :: "jsval option"
  p_system_message :: "jsval option"
  p_tools :: "jsval option"
  p_tool_choice :: "jsval option"

text \<open>
  \<open>crypto.randomUUID()\<close> (twice) and \<open>Math.floor(Date.now() / 1000)\<close> (twice) are given:
  \<open>ids\<close> and \<open>stamps\<close>. The fields \<open>parent_id\<close>, \<open>sub_chat_type\<close> and \<open>extra\<close> of the
  message repeat \<open>parentId\<close> and \<open>chat_type\<close> and are left out. A system message that is
  truthy and not a string makes \<open>systemMessage.substring\<close> throw.
\<close>

definition buildPayloadV2 ::
  "string \<times> string \<Rightarrow> string \<times> string \<Rightarrow> jsval \<Rightarrow> string \<Rightarrow> jsval \<Rightarrow> jsval \<Rightarrow> jsval
     \<Rightarrow> jsval \<Rightarrow> jsval \<Rightarrow> jsval \<Rightarrow> string \<Rightarrow> jsval \<Rightarrow> exn + payload" where
  "buildPayloadV2 ids stamps messageContent model chatId parentId files systemMessage tools
       toolChoice chatType sizeArg =
     (let isVideo = (chatType = ''t2v'');
          featureConfig =
            \<lparr>thinking_enabled = isVideo, output_schema = ''phase'',
             research_mode = (if isVideo then Some ''normal'' else None),
             auto_thinking = (if isVideo then Some True else None),
             thinking_format = (if isVideo then Some ''summary'' else None),
             auto_search = (if isVideo then Some True else None)\<rparr>;
          newMessage =
            \<lparr>m_fid = fst ids, m_parentId = parentId, m_role = ''user'', m_content = messageContent,
             m_chat_type = chatType, m_timestamp = fst stamps, m_user_action = ''chat'',
             m_models = [model], m_files = js_or files (JArray []), m_childrenIds = [snd ids],
             m_feature_config = featureConfig\<rparr>;
          pl =
            \<lparr>p_stream = (\<not> isVideo), p_incremental_output = True, p_chat_id = chatId,
             p_chat_mode = ''normal'', p_messages = [newMessage], p_model = model,
             p_parent_id = parentId, p_timestamp = snd stamps,
             p_size = (if truthy sizeArg then Some sizeArg else None),
             p_system_message = (if truthy systemMessage then Some systemMessage else None),
             p_tools = (case tools of
                          JArray (t # ts) \<Rightarrow> Some tools
                        | _ \<Rightarrow> None),
             p_tool_choice = (case tools of
                          JArray (t # ts) \<Rightarrow> Some (js_or toolChoice (JString ''auto''))
                        | _ \<Rightarrow> None)\<rparr>
      in if truthy systemMessage \<and> (case systemMessage of JString s \<Rightarrow> False | _ \<Rightarrow> True)
         then Inl TypeError else Inr pl)"

section \<open>Effects\<close>

text \<open>
  What the code does to the world outside its own variables is recorded as a list of
  events, oldest first. A page is known by a number. A request is recorded with the token
  that goes into its \<open>Authorization\<close> header. \<open>EvSendMessage n\<close> marks the
  entry of \<open>sendMessage\<close> with \<open>retryCount = n\<close>; it stands for no effect of the code
  and is there to count the invocations.
\<close>

type_synonym page = nat

datatype event =
    EvStatusCheck jsval "string option"
  | EvDelay
  | EvCreateChatFetch "string option" string
  | EvChatFetch jsval "string option" payload
  | EvGoto page
  | EvReload page
  | EvClosePage page
  | EvSaveAuthToken string
  | EvSetAuthenticationStatus bool
  | EvMarkInvalid string
  | EvMarkRateLimited string jsval
  | EvShutdownBrowser
  | EvInitBrowser bool
  | EvProcessExit nat
  | EvSendMessage nat

section \<open>Task polling (pollTaskStatus)\<close>

text \<open>
  One tick is one \<open>page.evaluate\<close> of the status request. Its outcome is what the source
  distinguishes: the evaluation itself throws; the in-page function caught an error of
  \<open>fetch\<close> or of \<open>response.json()\<close> (\<open>{success: false, error}\<close>); the response was
  not ok (\<open>{success: false, status, error}\<close>); or the response was ok and its JSON
  document is returned (\<open>{success: true, data}\<close>).
\<close>

datatype tick =
    EvaluateThrows string
  | FetchFailed string
  | HttpNotOk jsval string
  | HttpOk jsval

record poll_result =
  pr_success :: bool
  pr_status :: string
  pr_error :: "jsval option"
  pr_data :: "jsval option"

text \<open>\<open>taskData.task_status || taskData.status || 'unknown'\<close>\<close>

definition taskStatusOf :: "jsval \<Rightarrow> exn + jsval" where
  "taskStatusOf taskData =
     (case getProp taskData ''task_status'' of
        Inl e \<Rightarrow> Inl e
      | Inr s \<Rightarrow> Inr (js_or s (js_or (field taskData ''status'') (JString ''unknown''))))"

text \<open>\<open>if (attempt < maxAttempts) await delay(interval)\<close>\<close>

definition delayUnlessLast :: "nat \<Rightarrow> nat \<Rightarrow> event list" where
  "delayUnlessLast attempt maxAttempts = (if attempt < maxAttempts then [EvDelay] else [])"

definition emit :: "event list \<Rightarrow> 'a \<times> event list \<Rightarrow> 'a \<times> event list" where
  "emit evs r = (fst r, evs @ snd r)"

text \<open>
  The loop \<open>for (let attempt = 1; attempt <= maxAttempts; attempt++)\<close>, from the value of
  \<open>attempt\<close> on; \<open>ticks a\<close> is the outcome of the tick of attempt \<open>a\<close>.
\<close>

function pollFrom :: "(nat \<Rightarrow> tick) \<Rightarrow> jsval \<Rightarrow> string option \<Rightarrow> nat \<Rightarrow> nat \<Rightarrow> poll_result \<times> event list" where
  "pollFrom ticks taskId token maxAttempts attempt =
     (if attempt \<le> maxAttempts then
        emit [EvStatusCheck taskId token]
          (case ticks attempt of
             EvaluateThrows e \<Rightarrow>
               emit (delayUnlessLast attempt maxAttempts)
                 (pollFrom ticks taskId token maxAttempts (Suc attempt))
           | FetchFailed e \<Rightarrow>
               emit (delayUnlessLast attempt maxAttempts)
                 (pollFrom ticks taskId token maxAttempts (Suc attempt))
           | HttpNotOk st e \<Rightarrow>
               emit (delayUnlessLast attempt maxAttempts)
                 (pollFrom ticks taskId token maxAttempts (Suc attempt))
           | HttpOk taskData \<Rightarrow>
               (case taskStatusOf taskData of
                  Inl e \<Rightarrow>
                    emit (delayUnlessLast attempt maxAttempts)
                      (pollFrom ticks taskId token maxAttempts (Suc attempt))
                | Inr taskStatus \<Rightarrow>
                    if taskStatus = JString ''completed'' \<or> taskStatus = JString ''success'' then
                      (\<lparr>pr_success = True, pr_status = ''completed'', pr_error = None,
                        pr_data = Some taskData\<rparr>, [])
                    else if taskStatus = JString ''failed'' \<or> taskStatus = JString ''error'' then
                      (\<lparr>pr_success = False, pr_status = ''failed'',
                        pr_error = Some (js_or (field taskData ''error'')
                                          (js_or (field taskData ''message'') (JString ''Task failed''))),
                        pr_data = Some taskData\<rparr>, [])
                    else
                      emit (delayUnlessLast attempt maxAttempts)
                        (pollFrom ticks taskId token maxAttempts (Suc attempt))))
      else
        (\<lparr>pr_success = False, pr_status = ''timeout'',
          pr_error = Some (JString ''Task polling timeout exceeded''), pr_data = None\<rparr>, []))"
  by pat_completeness auto
termination
  by (relation "measure (\<lambda>(ticks, taskId, token, maxAttempts, attempt). Suc maxAttempts - attempt)") auto

definition pollTaskStatus :: "(nat \<Rightarrow> tick) \<Rightarrow> jsval \<Rightarrow> string option \<Rightarrow> nat \<Rightarrow> poll_result \<times> event list" where
  "pollTaskStatus ticks taskId token maxAttempts = pollFrom ticks taskId token maxAttempts 1"

text \<open>
  The states of the poller in the words of the specification: what one tick reports. A
  tick whose transport fails, or whose document has no readable status, reports nothing
  and leaves the poller pending.
\<close>

datatype poll_state = Pending | Completed | Failed

definition tickState :: "tick \<Rightarrow> poll_state" where
  "tickState t =
     (case t of
        HttpOk taskData \<Rightarrow>
          (case taskStatusOf taskData of
             Inl e \<Rightarrow> Pending
           | Inr s \<Rightarrow>
               if s = JString ''completed'' \<or> s = JString ''success'' then Completed
               else if s = JString ''failed'' \<or> s = JString ''error'' then Failed
               else Pending)
      | _ \<Rightarrow> Pending)"

definition transportFails :: "tick \<Rightarrow> bool" where
  "transportFails t = (case t of HttpOk taskData \<Rightarrow> False | _ \<Rightarrow> True)"

fun isStatusCheck :: "event \<Rightarrow> bool" where
  "isStatusCheck (EvStatusCheck taskId token) = True"
| "isStatusCheck e = False"

definition statusChecks :: "event list \<Rightarrow> nat" where
  "statusChecks evs = length (filter isStatusCheck evs)"

text \<open>Two tick sequences used as examples.\<close>

definition ticks_third_succeeds :: "nat \<Rightarrow> tick" where
  "ticks_third_succeeds a =
     (if a = 2 then FetchFailed ''TypeError: Failed to fetch''
      else if a = 3 then HttpOk (JObject [(''task_status'', JString ''success'')])
      else HttpOk (JObject [(''status'', JString ''processing'')]))"

definition ticks_processing :: "nat \<Rightarrow> tick" where
  "ticks_processing a = HttpOk (JObject [(''status'', JString ''processing'')])"

section \<open>The platform\<close>

text \<open>
  Built-in functions of the JavaScript runtime that the source calls and that are not part
  of the repository. The definitions below take them as a parameter, so that what is
  proved holds whatever they compute. \<open>JSON_parse\<close> answers \<open>None\<close> where
  \<open>JSON.parse\<close> throws. \<open>ToString\<close> is the conversion of a value that is not a
  string when it is appended to a string, \<open>StringToNumber\<close> and \<open>ObjectToNumber\<close>
  are \<open>Number(x)\<close> for a string and for an array or object.
\<close>

record platform =
  JSON_parse :: "string \<Rightarrow> jsval option"
  JSON_stringify :: "jsval \<Rightarrow> string"
  ToString :: "jsval \<Rightarrow> string"
  StringToNumber :: "string \<Rightarrow> jsnumber"
  ObjectToNumber :: "jsval \<Rightarrow> jsnumber"

definition toStr :: "platform \<Rightarrow> jsval \<Rightarrow> string" where
  "toStr P v = (case v of JString s \<Rightarrow> s | _ \<Rightarrow> ToString P v)"

text \<open>\<open>Number(v)\<close>\<close>

fun toNumber :: "platform \<Rightarrow> jsval \<Rightarrow> jsnumber" where
  "toNumber P JUndefined = NaN"
| "toNumber P JNull = Fin 0"
| "toNumber P (JBool b) = (if b then Fin 1 else Fin 0)"
| "toNumber P (JNumber n) = n"
| "toNumber P (JString s) = StringToNumber P s"
| "toNumber P v = ObjectToNumber P v"

section \<open>Reading a streamed response (executeApiRequest, the stream branch)\<close>

text \<open>\<open>s.split('\n')\<close>: never empty, the last element is the text after the last newline.\<close>

fun splitNL :: "string \<Rightarrow> string list" where
  "splitNL [] = [[]]"
| "splitNL (c # cs) =
     (if c = CHR 0x0A then [] # splitNL cs
      else (case splitNL cs of [] \<Rightarrow> [[c]] | l # ls \<Rightarrow> (c # l) # ls))"

text \<open>The variables of the read loop.\<close>

record stream_vars =
  buffer :: string
  fullContent :: string
  responseId :: jsval
  usage :: jsval
  finished :: bool

definition stream_init :: stream_vars where
  "stream_init = \<lparr>buffer = [], fullContent = [], responseId = JNull, usage = JNull, finished = False\<rparr>"

text \<open>
  The body of the \<open>try\<close> block for one parsed chunk. Reading a property of \<open>null\<close>
  throws before anything was assigned, and the \<open>catch\<close> ignores it.
\<close>

definition processChunk :: "platform \<Rightarrow> stream_vars \<Rightarrow> jsval \<Rightarrow> stream_vars" where
  "processChunk P v chunk =
     (case getProp chunk ''response.created'' of
        Inl e \<Rightarrow> v
      | Inr created \<Rightarrow>
          let v1 = (if truthy created then v\<lparr>responseId := field created ''response_id''\<rparr> else v);
              choices = field chunk ''choices'';
              v2 = (if truthy choices \<and> truthy (elem0 choices) then
                      let delta = field (elem0 choices) ''delta'';
                          v1a = (if truthy delta \<and> truthy (field delta ''content'')
                                 then v1\<lparr>fullContent := fullContent v1 @ toStr P (field delta ''content'')\<rparr>
                                 else v1)
                      in (if truthy delta \<and> field delta ''status'' = JString ''finished''
                          then v1a\<lparr>finished := True\<rparr> else v1a)
                    else v1)
          in (if truthy (field chunk ''usage'') then v2\<lparr>usage := field chunk ''usage''\<rparr> else v2))"

text \<open>The body of \<open>for (const line of lines)\<close>.\<close>

definition processLine :: "platform \<Rightarrow> stream_vars \<Rightarrow> string \<Rightarrow> stream_vars" where
  "processLine P v line =
     (if trim line = [] \<or> \<not> startsWith line ''data: '' then v
      else let jsonStr = trim (drop 6 line)
           in if jsonStr = [] then v
              else (case JSON_parse P jsonStr of
                      None \<Rightarrow> v
                    | Some chunk \<Rightarrow> processChunk P v chunk))"

text \<open>
  What \<open>reader.read()\<close> answers, one after the other; after the last element of the list
  it answers \<open>done\<close>.
\<close>

datatype read_result = ReadChunk string | ReadThrows string

text \<open>\<open>while (!finished) { ... }\<close>\<close>

fun readLoop :: "platform \<Rightarrow> stream_vars \<Rightarrow> read_result list \<Rightarrow> exn + stream_vars" where
  "readLoop P v [] = Inr v"
| "readLoop P v (r # rs) =
     (if finished v then Inr v
      else (case r of
              ReadThrows e \<Rightarrow> Inl (Error e)
            | ReadChunk txt \<Rightarrow>
                let lines = splitNL (buffer v @ txt)
                in readLoop P (foldl (processLine P) (v\<lparr>buffer := last lines\<rparr>) (butlast lines)) rs))"

text \<open>The \<open>data\<close> of a streamed response, lines 399 to 411.\<close>

record completion =
  c_id :: jsval
  c_model :: string
  c_content :: string
  c_usage :: jsval
  c_response_id :: jsval
  c_chatId :: jsval
  c_parentId :: jsval

definition zeroUsage :: jsval where
  "zeroUsage = JObject [(''prompt_tokens'', JNumber (Fin 0)), (''completion_tokens'', JNumber (Fin 0)),
                        (''total_tokens'', JNumber (Fin 0))]"

text \<open>\<open>'chatcmpl-' + Date.now()\<close>, the clock's answer given in decimal.\<close>

definition chatcmplId :: "string \<Rightarrow> jsval" where
  "chatcmplId now = JString (''chatcmpl-'' @ now)"

definition streamCompletion :: "string \<Rightarrow> string \<Rightarrow> stream_vars \<Rightarrow> completion" where
  "streamCompletion now model v =
     \<lparr>c_id = js_or (responseId v) (chatcmplId now), c_model = model, c_content = fullContent v,
      c_usage = js_or (usage v) zeroUsage, c_response_id = responseId v,
      c_chatId = JUndefined, c_parentId = JUndefined\<rparr>"

definition readStream :: "platform \<Rightarrow> string \<Rightarrow> string \<Rightarrow> read_result list \<Rightarrow> exn + completion" where
  "readStream P now model rs =
     (case readLoop P stream_init rs of
        Inl e \<Rightarrow> Inl e
      | Inr v \<Rightarrow> Inr (streamCompletion now model v))"

text \<open>
  The stream in the words of the specification. A frame is the chunk parsed from a
  complete line that starts with \<open>data: \<close>; a batch is the list of the lines completed by
  one read.
\<close>

definition frameOf :: "platform \<Rightarrow> string \<Rightarrow> jsval option" where
  "frameOf P line =
     (if trim line = [] \<or> \<not> startsWith line ''data: '' \<or> trim (drop 6 line) = [] then None
      else (case JSON_parse P (trim (drop 6 line)) of
              None \<Rightarrow> None
            | Some chunk \<Rightarrow> if nullish chunk then None else Some chunk))"






text \<open>The frames of each read, the text before the first read being \<open>buf\<close>.\<close>

fun frameBatches :: "platform \<Rightarrow> string \<Rightarrow> string list \<Rightarrow> jsval list list" where
  "frameBatches P buf [] = []"
| "frameBatches P buf (txt # txts) =
     List.map_filter (frameOf P) (butlast (splitNL (buf @ txt)))
       # frameBatches P (last (splitNL (buf @ txt))) txts"



definition lastOr :: "'a \<Rightarrow> 'a list \<Rightarrow> 'a" where
  "lastOr d xs = (if xs = [] then d else last xs)"

text \<open>
  A parser for the examples: the answers of \<open>JSON.parse\<close> on the sample frames and bodies
  that are JSON; on every other text it answers \<open>None\<close>, the exception of \<open>JSON.parse\<close>,
  as on the sample bodies that are not JSON. The other fields of the sample platform are
  never called on the examples.
\<close>

definition sample_frame_r1 :: string where
  \<open>sample_frame_r1 = ''{"response.created":{"response_id":"r1"}}''\<close>

definition sample_frame_r2 :: string where
  \<open>sample_frame_r2 = ''{"response.created":{"response_id":"r2"},"choices":[{"delta":{"content":"Pa"}}]}''\<close>

definition sample_frame_ris :: string where
  \<open>sample_frame_ris = ''{"choices":[{"delta":{"content":"ris","status":"finished"}}],"usage":{"total_tokens":7}}''\<close>

definition sample_frame_late :: string where
  \<open>sample_frame_late = ''{"choices":[{"delta":{"content":"!"}}]}''\<close>

definition sample_body_num2 :: string where
  \<open>sample_body_num2 = ''{"error":"RateLimited","num":2}''\<close>

definition sample_body_nonum :: string where
  \<open>sample_body_nonum = ''{"error":"RateLimited"}''\<close>

definition sample_body_unauthorized :: string where
  \<open>sample_body_unauthorized = ''{"detail":"Unauthorized"}''\<close>

definition sample_parse :: "string \<Rightarrow> jsval option" where
  "sample_parse s =
     (if s = sample_frame_r1 then
        Some (JObject [(''response.created'', JObject [(''response_id'', JString ''r1'')])])
      else if s = sample_frame_r2 then
        Some (JObject [(''response.created'', JObject [(''response_id'', JString ''r2'')]),
                       (''choices'', JArray [JObject [(''delta'', JObject [(''content'', JString ''Pa'')])]])])
      else if s = sample_frame_ris then
        Some (JObject [(''choices'', JArray [JObject [(''delta'',
                          JObject [(''content'', JString ''ris''), (''status'', JString ''finished'')])]]),
                       (''usage'', JObject [(''total_tokens'', JNumber (Fin 7))])])
      else if s = sample_frame_late then
        Some (JObject [(''choices'', JArray [JObject [(''delta'', JObject [(''content'', JString ''!'')])]])])
      else if s = sample_body_num2 then
        Some (JObject [(''error'', JString ''RateLimited''), (''num'', JNumber (Fin 2))])
      else if s = sample_body_nonum then
        Some (JObject [(''error'', JString ''RateLimited'')])
      else if s = sample_body_unauthorized then
        Some (JObject [(''detail'', JString ''Unauthorized'')])
      else None)"

definition sample_platform :: platform where
  "sample_platform =
     \<lparr>JSON_parse = sample_parse, JSON_stringify = (\<lambda>v. []), ToString = (\<lambda>v. []),
      StringToNumber = (\<lambda>s. NaN), ObjectToNumber = (\<lambda>v. NaN)\<rparr>"


text \<open>
  The reading of the stream that the claim states: every frame of the stream in arrival
  order, the frames up to and including the first that signals completion, and the
  first element of a list.
\<close>

definition allFrames :: "platform \<Rightarrow> string list \<Rightarrow> jsval list" where
  "allFrames P txts = concat (frameBatches P [] txts)"



section \<open>Configuration, module state and environment\<close>

text \<open>
  The constants that \<open>chat.js\<close> imports from \<open>../config.js\<close>, which is not among
  the sources, and the answer of \<open>getAvailableModelsFromFile()\<close>.
\<close>

record config =
  PAGE_POOL_SIZE :: nat
  MAX_RETRY_COUNT :: nat
  DEFAULT_MODEL :: string
  TASK_POLL_MAX_ATTEMPTS :: nat
  modelsFromFile :: "string list"

text \<open>
  The module variables \<open>authToken\<close> (\<open>None\<close> is \<open>null\<close>), \<open>pagePool.pages\<close> and
  \<open>availableModels\<close>, the next handle that \<open>context.newPage()\<close> will answer, and the
  events so far.
\<close>

record state =
  authToken :: "string option"
  pages :: "page list"
  availableModels :: "string list option"
  nextPage :: page
  trace :: "event list"

definition tokenTruthy :: "string option \<Rightarrow> bool" where
  "tokenTruthy t = (case t of None \<Rightarrow> False | Some s \<Rightarrow> s \<noteq> [])"

definition perform :: "event \<Rightarrow> state \<Rightarrow> state" where
  "perform e st = st\<lparr>trace := trace st @ [e]\<rparr>"

text \<open>
  Requests run concurrently. While one is suspended at an \<open>await\<close>, another may assign
  \<open>authToken\<close> (lines 55, 159, 264, 277, 431, 439, 465, 523, 659 and 665 do) and may take
  pages from the pool or put pages into it. An interference says what the two variables
  have become when the suspended request goes on, \<open>None\<close> standing for `as it was'.
  (\<open>availableModels\<close> is shared too, but every request that loads it loads the same list.)
\<close>

record interference =
  tokenBecomes :: "string option option"
  pagesBecome :: "page list option"

definition noInterference :: interference where
  "noInterference = \<lparr>tokenBecomes = None, pagesBecome = None\<rparr>"

definition disturb :: "string option option \<Rightarrow> state \<Rightarrow> state" where
  "disturb tb st = (case tb of None \<Rightarrow> st | Some t \<Rightarrow> st\<lparr>authToken := t\<rparr>)"

definition resume :: "interference \<Rightarrow> state \<Rightarrow> state" where
  "resume i st =
     (case pagesBecome i of
        None \<Rightarrow> disturb (tokenBecomes i) st
      | Some ps \<Rightarrow> (disturb (tokenBecomes i) st)\<lparr>pages := ps\<rparr>)"

text \<open>
  The messages of the source are Russian texts; each literal is a constructor here, and
  \<open>Text\<close> is a text computed at run time (an error's \<open>toString()\<close>, a response body, a
  status text). \<open>ChatNotCreated e\<close> is the literal of line 482 followed by \<open>e\<close>.
\<close>

datatype errtext =
    Text string
  | BrowserNotInitialised
  | NoAuthTokenForChat
  | UnknownError
  | ChatNotCreated errtext
  | EmptyMessage
  | BadCompositeMessage
  | UnsupportedMessageFormat
  | AuthorizationFailed
  | TokenNotFound
  | TokenNotFoundRestart
  | VerificationRequired
  | AllTokensRateLimited
  | NoDetails

fun errTruthy :: "errtext \<Rightarrow> bool" where
  "errTruthy (Text s) = (s \<noteq> [])"
| "errTruthy e = True"

text \<open>\<open>error.toString()\<close>; the message of a \<open>TypeError\<close> is the engine's.\<close>

fun exnToString :: "exn \<Rightarrow> string" where
  "exnToString TypeError = ''TypeError''"
| "exnToString (Error m) = ''Error: '' @ m"

text \<open>
  The object that \<open>getBrowserContext()\<close> answers: \<open>ctx_goto\<close> is the page it is when
  \<open>typeof context.goto === 'function'\<close>, \<open>ctx_newPage\<close> tells whether
  \<open>typeof context.newPage === 'function'\<close>.
\<close>

record browser_context =
  ctx_goto :: "page option"
  ctx_newPage :: bool

text \<open>
  What a page that is being set up answers; and, for \<open>pagePool.getPage\<close>, what other
  requests have made of \<open>authToken\<close> while the page was opened and loaded (lines 50 and
  51), which line 53 then reads.
\<close>

record page_env =
  newPageThrows :: "exn option"
  gotoThrows :: "exn option"
  localStorageToken :: "exn + string option"
  meanwhile :: "string option option"

text \<open>An account of the token manager: \<open>{id, token}\<close>, an absent field being the empty text.\<close>

record token_obj =
  tok_id :: string
  tok_token :: string

text \<open>
  The answer of the upstream service to the chat creation request, as
  \<open>createChatV2\<close> sees it after \<open>page.evaluate\<close>.
\<close>

datatype create_response =
    CreateEvaluateThrows exn
  | CreateFetchFailed string
  | CreateNotOk jsval string
  | CreateOk jsval

text \<open>
  The answer to the chat request: \<open>page.evaluate\<close> itself throws; \<open>fetch\<close> (or reading
  the body) throws inside the page; the response is not ok, with its status, status text
  and body; the response is ok, with what \<open>response.json()\<close> would answer (\<open>Inl\<close> the
  error it throws) and what the reader of the body would answer.
\<close>

datatype upstream_response =
    EvaluateRejects exn
  | FetchThrows string
  | RespondsNotOk jsval string string
  | RespondsOk "string + jsval" "read_result list"

text \<open>
  The places where a request, resumed after one or more \<open>await\<close>s, reads \<open>authToken\<close> or
  the pool again. In \<open>createChatV2\<close>: after \<open>getAvailableToken\<close> (line 657, read at 663),
  after \<open>extractAuthToken\<close> (line 665, the pool is read at 671), after
  \<open>pagePool.getPage\<close> (line 671, read at 674), after the request (line 676, the pool is
  read at 690). In \<open>resolveAuthToken\<close>: after \<open>getAvailableToken\<close> and
  \<open>checkAuthentication\<close> (lines 262 and 271, read at 275). In \<open>sendMessage\<close>: after
  \<open>resolveAuthToken\<close> (line 509, the pool is read at 514), after \<open>pagePool.getPage\<close>,
  \<open>checkVerification\<close> and \<open>page.reload\<close> (lines 514 to 518, read at 521), after
  \<open>executeApiRequest\<close> (line 535, read at 544, 553, 569 and 600), after \<open>pollTaskStatus\<close>
  (line 569, the pool is read at 571). An interference at any other \<open>await\<close> of these
  functions is overwritten or is seen first at one of these places; the one inside
  \<open>pagePool.getPage\<close> is with the answers of the page. \<open>handleApiError\<close> is taken to run
  its steps with no other request in between: the pages that \<open>pagePool.clear()\<close> closes
  (lines 430 and 449) are those of the pool when \<open>handleApiError\<close> is entered.
\<close>

datatype await_point =
    AfterChatAccount
  | AfterChatToken
  | AfterChatPage
  | AfterChatFetch
  | AfterAccount
  | AfterResolve
  | AfterPage
  | AfterFetch
  | AfterPoll

text \<open>
  The answers of everything outside \<open>chat.js\<close> during one invocation of \<open>sendMessage\<close>:
  the browser context, the token manager, the pages, the upstream service and the other
  requests in flight (\<open>others\<close>). The calls on a page and \<open>checkVerification\<close> may throw, as
  the fields say; the functions of the token manager, of the authentication module and of
  the logger, and \<open>shutdownBrowser\<close> and \<open>initBrowser\<close>, are taken to return without
  throwing; none of them calls back into \<open>chat.js\<close>. The fields \<open>chat_...\<close> are the answers
  during \<open>createChatV2\<close>, \<open>chat_response\<close> being the answer to the chat creation request for
  the model that is sent; \<open>clock\<close> is \<open>Date.now()\<close> as a text, \<open>stamps\<close> the two times in
  seconds that \<open>buildPayloadV2\<close> reads, \<open>uuids\<close> the two identifiers it draws.
\<close>

record attempt_env =
  browserContext :: "browser_context option"
  chat_availableToken :: "token_obj option"
  chat_extractPage :: page_env
  chat_poolPage :: page_env
  chat_response :: "string \<Rightarrow> create_response"
  availableToken :: "token_obj option"
  authenticationStatus :: bool
  checkAuthenticationResult :: bool
  extractPage :: page_env
  poolPage :: page_env
  checkVerificationResult :: "exn + bool"
  reloadThrows :: "exn option"
  pageToken :: "exn + string option"
  upstream :: upstream_response
  taskTicks :: "nat \<Rightarrow> tick"
  hasValidTokens :: bool
  clock :: string
  stamps :: "string \<times> string"
  uuids :: "string \<times> string"
  others :: "await_point \<Rightarrow> interference"

section \<open>The page pool (pagePool) and getPage\<close>

text \<open>The helper \<open>getPage(context)\<close>, lines 32 to 39.\<close>

definition getPage :: "browser_context option \<Rightarrow> exn option \<Rightarrow> state \<Rightarrow> (exn + page) \<times> state" where
  "getPage ctx npThrows st =
     (case ctx of
        None \<Rightarrow> (Inl (Error ''invalid context''), st)
      | Some c \<Rightarrow>
          (case ctx_goto c of
             Some p \<Rightarrow> (Inr p, st)
           | None \<Rightarrow>
               if ctx_newPage c then
                 (case npThrows of
                    Some e \<Rightarrow> (Inl e, st)
                  | None \<Rightarrow> (Inr (nextPage st), st\<lparr>nextPage := Suc (nextPage st)\<rparr>))
               else (Inl (Error ''invalid context''), st)))"

text \<open>\<open>authToken = ...; if (authToken) saveAuthToken(authToken)\<close>\<close>

definition storeToken :: "string option \<Rightarrow> state \<Rightarrow> state" where
  "storeToken t st =
     (case t of
        None \<Rightarrow> st\<lparr>authToken := None\<rparr>
      | Some s \<Rightarrow> if s = [] then st\<lparr>authToken := Some s\<rparr>
                  else perform (EvSaveAuthToken s) (st\<lparr>authToken := Some s\<rparr>))"

definition pagePool_getPage :: "browser_context option \<Rightarrow> page_env \<Rightarrow> state \<Rightarrow> (exn + page) \<times> state" where
  "pagePool_getPage ctx pe st =
     (if pages st \<noteq> [] then (Inr (last (pages st)), st\<lparr>pages := butlast (pages st)\<rparr>)
      else (case getPage ctx (newPageThrows pe) st of
              (Inl e, st1) \<Rightarrow> (Inl e, st1)
            | (Inr newPage, st1) \<Rightarrow>
                (case gotoThrows pe of
                   Some e \<Rightarrow> (Inl e, perform (EvGoto newPage) st1)
                 | None \<Rightarrow>
                     let st2 = disturb (meanwhile pe) (perform (EvGoto newPage) st1)
                     in if \<not> tokenTruthy (authToken st2) then
                          (case localStorageToken pe of
                             Inl e \<Rightarrow> (Inr newPage, st2)
                           | Inr t \<Rightarrow> (Inr newPage, storeToken t st2))
                        else (Inr newPage, st2))))"

definition pagePool_releasePage :: "config \<Rightarrow> page \<Rightarrow> state \<Rightarrow> state" where
  "pagePool_releasePage cfg p st =
     (if length (pages st) < PAGE_POOL_SIZE cfg then st\<lparr>pages := pages st @ [p]\<rparr>
      else perform (EvClosePage p) st)"

definition pagePool_clear :: "state \<Rightarrow> state" where
  "pagePool_clear st = st\<lparr>trace := trace st @ map EvClosePage (pages st), pages := []\<rparr>"

section \<open>Tokens (extractAuthToken, resolveAuthToken)\<close>

text \<open>\<open>if (typeof context.newPage === 'function') await page.close()\<close>\<close>

definition closeIfNewPage :: "browser_context option \<Rightarrow> page \<Rightarrow> state \<Rightarrow> state" where
  "closeIfNewPage ctx p st =
     (case ctx of
        None \<Rightarrow> st
      | Some c \<Rightarrow> if ctx_newPage c then perform (EvClosePage p) st else st)"

definition extractAuthToken :: "browser_context option \<Rightarrow> bool \<Rightarrow> page_env \<Rightarrow> state \<Rightarrow> string option \<times> state" where
  "extractAuthToken ctx forceRefresh pe st =
     (if tokenTruthy (authToken st) \<and> \<not> forceRefresh then (authToken st, st)
      else (case getPage ctx (newPageThrows pe) st of
              (Inl e, st1) \<Rightarrow> (None, st1)
            | (Inr p, st1) \<Rightarrow>
                (case gotoThrows pe of
                   Some e \<Rightarrow> (None, closeIfNewPage ctx p (perform (EvGoto p) st1))
                 | None \<Rightarrow>
                     let st2 = perform EvDelay (perform (EvGoto p) st1)
                     in (case localStorageToken pe of
                           Inl e \<Rightarrow> (None, closeIfNewPage ctx p st2)
                         | Inr newToken \<Rightarrow>
                             let st3 = closeIfNewPage ctx p st2
                             in if tokenTruthy newToken then (newToken, storeToken newToken st3)
                                else (None, st3)))))"

definition resolveAuthToken :: "browser_context option \<Rightarrow> attempt_env \<Rightarrow> state \<Rightarrow> token_obj option \<times> state" where
  "resolveAuthToken ctx env st =
     (case (case availableToken env of
              None \<Rightarrow> None
            | Some tokenObj \<Rightarrow> if tok_token tokenObj \<noteq> [] then Some tokenObj else None) of
        Some tokenObj \<Rightarrow> (Some tokenObj, st\<lparr>authToken := Some (tok_token tokenObj)\<rparr>)
      | None \<Rightarrow>
          if \<not> authenticationStatus env \<and> \<not> checkAuthenticationResult env then (None, st)
          else
            let st0 = resume (others env AfterAccount) st;
                st1 = (if \<not> tokenTruthy (authToken st0) then
                         (case extractAuthToken ctx False (extractPage env) st0 of
                            (t, st') \<Rightarrow> st'\<lparr>authToken := t\<rparr>)
                       else st0)
            in (case authToken st1 of
                  None \<Rightarrow> (None, st1)
                | Some s \<Rightarrow> if s = [] then (None, st1)
                            else (Some \<lparr>tok_id = ''browser'', tok_token = s\<rparr>, st1)))"

section \<open>Creating a chat (createChatV2)\<close>

datatype chat_result = ChatError errtext | ChatCreated jsval

text \<open>\<open>if (page) { ... if (typeof getBrowserContext()?.newPage === 'function') await page.close() }\<close>\<close>

definition finallyClose :: "browser_context option \<Rightarrow> page option \<Rightarrow> state \<Rightarrow> state" where
  "finallyClose ctx pg st = (case pg of None \<Rightarrow> st | Some p \<Rightarrow> closeIfNewPage ctx p st)"

text \<open>What follows \<open>pagePool.releasePage(page)\<close> in \<open>createChatV2\<close>, lines 693 to 699.\<close>

definition createChatAnswer :: "create_response \<Rightarrow> exn + chat_result" where
  "createChatAnswer r =
     (case r of
        CreateEvaluateThrows e \<Rightarrow> Inl e
      | CreateFetchFailed e \<Rightarrow> Inr (ChatError (if e \<noteq> [] then Text e else UnknownError))
      | CreateNotOk st body \<Rightarrow> Inr (ChatError (if body \<noteq> [] then Text body else UnknownError))
      | CreateOk d \<Rightarrow>
          (case getProp d ''success'' of
             Inl e \<Rightarrow> Inl e
           | Inr ok \<Rightarrow>
               if truthy ok then
                 (case getProp (field d ''data'') ''id'' of
                    Inl e \<Rightarrow> Inl e
                  | Inr i \<Rightarrow> Inr (ChatCreated i))
               else Inr (ChatError UnknownError)))"

text \<open>Lines 657 to 665: the token for the chat creation request.\<close>

definition chatToken :: "attempt_env \<Rightarrow> browser_context option \<Rightarrow> state \<Rightarrow> state" where
  "chatToken env ctx st =
     (let st0 = resume (others env AfterChatAccount) st;
          st1 = (case chat_availableToken env of
                   None \<Rightarrow> st0
                 | Some tokenObj \<Rightarrow>
                     if tok_token tokenObj \<noteq> [] then st0\<lparr>authToken := Some (tok_token tokenObj)\<rparr>
                     else st0)
      in if \<not> tokenTruthy (authToken st1) then
           (case extractAuthToken ctx False (chat_extractPage env) st1 of
              (t, st') \<Rightarrow> (resume (others env AfterChatToken) st')\<lparr>authToken := t\<rparr>)
         else st1)"

text \<open>
  Lines 669 to 711: the request, with its \<open>try\<close>, \<open>catch\<close> and \<open>finally\<close>. The token that
  goes into the request is what \<open>authToken\<close> holds at line 674, after the \<open>await\<close> of line
  671; nothing tests it.
\<close>

definition createChatRequest ::
  "config \<Rightarrow> string \<Rightarrow> attempt_env \<Rightarrow> browser_context option \<Rightarrow> state \<Rightarrow> chat_result \<times> state" where
  "createChatRequest cfg model env ctx st =
     (case pagePool_getPage ctx (chat_poolPage env) st of
        (Inl e, st1) \<Rightarrow> (ChatError (Text (exnToString e)), st1)
      | (Inr p, st1) \<Rightarrow>
          let st2 = resume (others env AfterChatPage) st1
          in (case chat_response env model of
                CreateEvaluateThrows e \<Rightarrow>
                  (ChatError (Text (exnToString e)), finallyClose ctx (Some p) st2)
              | r \<Rightarrow>
                  let st3 = pagePool_releasePage cfg p
                              (resume (others env AfterChatFetch)
                                 (perform (EvCreateChatFetch (authToken st2) model) st2))
                  in (case createChatAnswer r of
                        Inl e \<Rightarrow> (ChatError (Text (exnToString e)), st3)
                      | Inr res \<Rightarrow> (res, st3))))"

definition createChatV2 :: "config \<Rightarrow> string \<Rightarrow> attempt_env \<Rightarrow> state \<Rightarrow> chat_result \<times> state" where
  "createChatV2 cfg model env st =
     (case browserContext env of
        None \<Rightarrow> (ChatError BrowserNotInitialised, st)
      | Some c \<Rightarrow>
          let st1 = chatToken env (Some c) st
          in if \<not> tokenTruthy (authToken st1) then (ChatError NoAuthTokenForChat, st1)
             else createChatRequest cfg model env (Some c) st1)"

section \<open>Helpers of sendMessage\<close>

datatype validated = VError errtext | VContent jsval

text \<open>
  The test of \<open>message.every(...)\<close> on one item, and \<open>every\<close> itself, which stops at the
  first item that fails; reading \<open>item.type\<close> of \<open>null\<close> throws.
\<close>

definition validItem :: "jsval \<Rightarrow> bool" where
  "validItem item =
     ((field item ''type'' = JString ''text'' \<and> (case field item ''text'' of JString s \<Rightarrow> True | _ \<Rightarrow> False))
      \<or> (field item ''type'' = JString ''image'' \<and> (case field item ''image'' of JString s \<Rightarrow> True | _ \<Rightarrow> False))
      \<or> (field item ''type'' = JString ''file'' \<and> (case field item ''file'' of JString s \<Rightarrow> True | _ \<Rightarrow> False)))"

fun everyValid :: "jsval list \<Rightarrow> exn + bool" where
  "everyValid [] = Inr True"
| "everyValid (item # items) =
     (if nullish item then Inl TypeError
      else if validItem item then everyValid items
      else Inr False)"

definition validateAndPrepareMessage :: "jsval \<Rightarrow> exn + validated" where
  "validateAndPrepareMessage message =
     (case message of
        JNull \<Rightarrow> Inr (VError EmptyMessage)
      | JUndefined \<Rightarrow> Inr (VError EmptyMessage)
      | JString s \<Rightarrow> Inr (VContent message)
      | JArray items \<Rightarrow>
          (case everyValid items of
             Inl e \<Rightarrow> Inl e
           | Inr isValid \<Rightarrow> if \<not> isValid then Inr (VError BadCompositeMessage) else Inr (VContent message))
      | _ \<Rightarrow> Inr (VError UnsupportedMessageFormat))"

text \<open>\<open>if (!availableModels) availableModels = getAvailableModelsFromFile()\<close>\<close>

definition loadModels :: "config \<Rightarrow> state \<Rightarrow> state" where
  "loadModels cfg st =
     (case availableModels st of
        None \<Rightarrow> st\<lparr>availableModels := Some (modelsFromFile cfg)\<rparr>
      | Some ms \<Rightarrow> st)"

definition isValidModel :: "config \<Rightarrow> string \<Rightarrow> state \<Rightarrow> bool \<times> state" where
  "isValidModel cfg modelName st =
     (let st1 = loadModels cfg st
      in (case availableModels st1 of
            None \<Rightarrow> (False, st1)
          | Some ms \<Rightarrow> (modelName \<in> set ms, st1)))"

text \<open>Lines 494 to 499 of \<open>sendMessage\<close>: the model that the request goes on with.\<close>

definition chooseModel :: "config \<Rightarrow> string \<Rightarrow> state \<Rightarrow> string \<times> state" where
  "chooseModel cfg model st =
     (if model = [] \<or> trim model = [] then (DEFAULT_MODEL cfg, st)
      else (case isValidModel cfg model st of
              (ok, st1) \<Rightarrow> if \<not> ok then (DEFAULT_MODEL cfg, st1) else (model, st1)))"

section \<open>One upstream call (executeApiRequest)\<close>

text \<open>
  The object that \<open>executeApiRequest\<close> returns and \<open>handleApiError\<close> reads. An absent
  field is \<open>None\<close> (\<open>JUndefined\<close> for the status). \<open>executeApiRequest\<close> never sets
  \<open>html\<close>.
\<close>

record api_response =
  r_success :: bool
  r_isTask :: bool
  r_taskData :: jsval
  r_completion :: "completion option"
  r_status :: jsval
  r_statusText :: "string option"
  r_errorBody :: "string option"
  r_error :: "errtext option"
  r_html :: "string option"

definition failure :: api_response where
  "failure = \<lparr>r_success = False, r_isTask = False, r_taskData = JUndefined, r_completion = None,
              r_status = JUndefined, r_statusText = None, r_errorBody = None, r_error = None,
              r_html = None\<rparr>"

definition executeApiRequest ::
  "platform \<Rightarrow> string \<Rightarrow> upstream_response \<Rightarrow> jsval \<Rightarrow> payload \<Rightarrow> string option \<Rightarrow> state
     \<Rightarrow> (exn + api_response) \<times> state" where
  "executeApiRequest P now up chatId pl token st =
     (case up of
        EvaluateRejects e \<Rightarrow> (Inl e, st)
      | _ \<Rightarrow>
          if \<not> tokenTruthy token then (Inr (failure\<lparr>r_error := Some TokenNotFound\<rparr>), st)
          else
            let st1 = perform (EvChatFetch chatId token pl) st
            in (case up of
                  EvaluateRejects e \<Rightarrow> (Inl e, st)
                | FetchThrows e \<Rightarrow> (Inr (failure\<lparr>r_error := Some (Text e)\<rparr>), st1)
                | RespondsNotOk code statusText errorBody \<Rightarrow>
                    (Inr (failure\<lparr>r_status := code, r_statusText := Some statusText,
                                   r_errorBody := Some errorBody\<rparr>), st1)
                | RespondsOk json rs \<Rightarrow>
                    if \<not> p_stream pl then
                      (case json of
                         Inl e \<Rightarrow> (Inr (failure\<lparr>r_error := Some (Text e)\<rparr>), st1)
                       | Inr jsonResponse \<Rightarrow>
                           (Inr (failure\<lparr>r_success := True, r_isTask := True, r_taskData := jsonResponse\<rparr>), st1))
                    else
                      (case readStream P now (p_model pl) rs of
                         Inl e \<Rightarrow> (Inr (failure\<lparr>r_error := Some (Text (exnToString e))\<rparr>), st1)
                       | Inr c \<Rightarrow>
                           (Inr (failure\<lparr>r_success := True, r_completion := Some c\<rparr>), st1))))"

section \<open>Task responses (extractTaskId, extractVideoUrl)\<close>

definition extractTaskId :: "jsval \<Rightarrow> exn + jsval" where
  "extractTaskId d =
     (case getProp d ''data'' of
        Inl e \<Rightarrow> Inl e
      | Inr dd \<Rightarrow>
          let firstMsg = opt_elem0 (opt_field dd ''messages'');
              nested = opt_field (opt_field (opt_field firstMsg ''extra'') ''wanx'') ''task_id''
          in if truthy nested then Inr nested
             else Inr (js_or (field d ''id'')
                        (js_or (field d ''task_id'')
                          (js_or (field d ''response_id'')
                            (js_or (opt_field dd ''message_id'') JNull)))))"

definition extractVideoUrl :: "jsval \<Rightarrow> exn + jsval" where
  "extractVideoUrl taskData =
     (case getProp taskData ''content'' of
        Inl e \<Rightarrow> Inl e
      | Inr c \<Rightarrow>
          if truthy c then Inr c
          else (case field taskData ''result'' of
                  JString s \<Rightarrow> Inr (JString s)
                | res \<Rightarrow>
                    if truthy (opt_field res ''url'') then Inr (field res ''url'')
                    else if truthy (opt_field res ''video_url'') then Inr (field res ''video_url'')
                    else Inr JNull))"

text \<open>
  The precedence of the task id in the words of the specification: the candidates in
  order, the first that is there (truthy) wins.
\<close>

definition taskIdCandidates :: "jsval \<Rightarrow> jsval list" where
  "taskIdCandidates d =
     [opt_field (opt_field (opt_field (opt_elem0 (opt_field (field d ''data'') ''messages''))
          ''extra'') ''wanx'') ''task_id'',
      field d ''id'',
      field d ''task_id'',
      field d ''response_id'',
      opt_field (field d ''data'') ''message_id'']"

definition sample_task_both :: jsval where
  "sample_task_both =
     JObject [(''id'', JString ''top-1''),
              (''data'', JObject [(''messages'',
                 JArray [JObject [(''extra'', JObject [(''wanx'', JObject [(''task_id'', JString ''wanx-7'')])])]])])]"

definition sample_task_m1 :: jsval where
  "sample_task_m1 = JObject [(''data'', JObject [(''message_id'', JString ''m1'')])]"

section \<open>sendMessage and handleApiError\<close>

text \<open>The parameters of \<open>sendMessage\<close>.\<close>

record send_args =
  a_message :: jsval
  a_model :: string
  a_chatId :: jsval
  a_parentId :: jsval
  a_files :: jsval
  a_tools :: jsval
  a_toolChoice :: jsval
  a_systemMessage :: jsval
  a_chatType :: string
  a_size :: jsval
  a_waitForCompletion :: bool
  a_retryCount :: nat

text \<open>
  The default values of the parameters (line 477): an argument that is \<open>undefined\<close> is
  \<open>null\<close> for \<open>chatId\<close>, \<open>parentId\<close>, \<open>files\<close>, \<open>tools\<close>, \<open>toolChoice\<close>, \<open>systemMessage\<close>
  and \<open>size\<close>. The parameters \<open>model\<close> and \<open>chatType\<close> are texts here, \<open>waitForCompletion\<close>
  is a truth value and \<open>retryCount\<close> a number: a caller that leaves one of them out is a
  caller that passes \<open>DEFAULT_MODEL\<close>, \<open>'t2t'\<close>, \<open>true\<close> or \<open>0\<close>.
\<close>

definition orNull :: "jsval \<Rightarrow> jsval" where
  "orNull v = (if v = JUndefined then JNull else v)"

definition defaultArgs :: "send_args \<Rightarrow> send_args" where
  "defaultArgs a =
     a\<lparr>a_chatId := orNull (a_chatId a), a_parentId := orNull (a_parentId a),
       a_files := orNull (a_files a), a_tools := orNull (a_tools a),
       a_toolChoice := orNull (a_toolChoice a), a_systemMessage := orNull (a_systemMessage a),
       a_size := orNull (a_size a)\<rparr>"

text \<open>The objects that \<open>sendMessage\<close> returns, by their shape.\<close>

record task_created =
  tc_id :: jsval
  tc_model :: string
  tc_task_id :: jsval
  tc_chatId :: jsval
  tc_parentId :: jsval

record video_completion =
  v_id :: jsval
  v_model :: string
  v_content :: jsval
  v_usage :: jsval
  v_chatId :: jsval
  v_video_url :: jsval

text \<open>
  \<open>RError e c\<close> is \<open>{error: e, chatId: c}\<close>; \<open>RChatError e\<close> is \<open>{error: e}\<close>;
  \<open>RVerification e c\<close> is \<open>{error: e, verification: true, chatId: c}\<close>;
  \<open>RDetails e d c\<close> is \<open>{error: e, details: d, chatId: c}\<close>;
  \<open>RTaskIdMissing c raw\<close> is \<open>{error: 'Task ID not found in response', chatId: c,
  rawResponse: raw}\<close>; \<open>RTaskFailed e s c t\<close> is \<open>{error: e, status: s, chatId: c,
  task_id: t}\<close>; \<open>RExit n\<close> is \<open>process.exit(n)\<close>, after which nothing is returned;
  \<open>RThrown e\<close> is an exception that leaves \<open>sendMessage\<close>.
\<close>

datatype send_result =
    RError errtext jsval
  | RChatError errtext
  | RVerification errtext jsval
  | RDetails "errtext option" errtext jsval
  | RTaskIdMissing jsval jsval
  | RTaskFailed jsval string jsval jsval
  | RTaskCreated task_created
  | RVideo video_completion
  | RCompletion completion
  | RExit nat
  | RThrown exn

text \<open>
  How the body of the \<open>try\<close> block ends: a \<open>return\<close>, an exception, or
  \<open>return handleApiError(...)\<close>; with the value of the variable \<open>page\<close> at that moment
  (\<open>null\<close> before \<open>handleApiError\<close> is called).
\<close>

datatype body_outcome =
    Returns send_result "page option"
  | Throws exn "page option"
  | CallsHandleApiError api_response

definition zeroVideoUsage :: jsval where
  "zeroVideoUsage = JObject [(''prompt_tokens'', JNumber (Fin 0)), (''output_tokens'', JNumber (Fin 0)),
                             (''total_tokens'', JNumber (Fin 0))]"

text \<open>
  Lines 538 to 597: the response is a created task. The token that goes into the status
  checks is what \<open>authToken\<close> holds at line 569, after the \<open>await\<close> of line 535; nothing
  tests it.
\<close>

definition sm_task ::
  "config \<Rightarrow> platform \<Rightarrow> attempt_env \<Rightarrow> send_args \<Rightarrow> page \<Rightarrow> jsval \<Rightarrow> state \<Rightarrow> body_outcome \<times> state" where
  "sm_task cfg P env a p d st =
     (case extractTaskId d of
        Inl e \<Rightarrow> (Throws e (Some p), st)
      | Inr taskId \<Rightarrow>
          if \<not> truthy taskId then
            (Returns (RTaskIdMissing (a_chatId a) d) None, pagePool_releasePage cfg p st)
          else if \<not> a_waitForCompletion a then
            (Returns (RTaskCreated
                \<lparr>tc_id = taskId, tc_model = a_model a, tc_task_id = taskId, tc_chatId = a_chatId a,
                 tc_parentId = js_or (opt_field (field d ''data'') ''parent_id'') taskId\<rparr>) None,
             pagePool_releasePage cfg p st)
          else
            (case pollTaskStatus (taskTicks env) taskId (authToken st) (TASK_POLL_MAX_ATTEMPTS cfg) of
               (taskResult, evs) \<Rightarrow>
                 let st1 = pagePool_releasePage cfg p
                             (resume (others env AfterPoll) (st\<lparr>trace := trace st @ evs\<rparr>))
                 in if pr_success taskResult \<and> pr_status taskResult = ''completed'' then
                      (let td = (case pr_data taskResult of None \<Rightarrow> JUndefined | Some x \<Rightarrow> x)
                       in (case extractVideoUrl td of
                             Inl e \<Rightarrow> (Throws e None, st1)
                           | Inr videoUrl \<Rightarrow>
                               (Returns (RVideo
                                  \<lparr>v_id = taskId, v_model = a_model a,
                                   v_content = js_or videoUrl (JString (JSON_stringify P td)),
                                   v_usage = js_or (field td ''usage'') zeroVideoUsage,
                                   v_chatId = a_chatId a, v_video_url = videoUrl\<rparr>) None, st1)))
                    else
                      (Returns (RTaskFailed
                          (js_or (case pr_error taskResult of None \<Rightarrow> JUndefined | Some x \<Rightarrow> x)
                                 (JString ''Video generation failed''))
                          (pr_status taskResult) (a_chatId a) taskId) None, st1)))"

text \<open>Lines 521 to 526: the token is missing before the request is sent.\<close>

definition ensureToken :: "attempt_env \<Rightarrow> send_args \<Rightarrow> page \<Rightarrow> state \<Rightarrow> (body_outcome \<times> state) + state" where
  "ensureToken env a p st =
     (if \<not> tokenTruthy (authToken st) then
        (case pageToken env of
           Inl e \<Rightarrow> Inl (Throws e (Some p), st)
         | Inr t \<Rightarrow>
             if \<not> tokenTruthy t then
               Inl (Returns (RError TokenNotFoundRestart (a_chatId a)) (Some p), st\<lparr>authToken := t\<rparr>)
             else Inr (storeToken t st))
      else Inr st)"

text \<open>Lines 521 to 612: from the token check to the end of the \<open>try\<close> block.\<close>

definition sm_request ::
  "config \<Rightarrow> platform \<Rightarrow> attempt_env \<Rightarrow> send_args \<Rightarrow> jsval \<Rightarrow> page \<Rightarrow> state \<Rightarrow> body_outcome \<times> state" where
  "sm_request cfg P env a messageContent p st =
     (case ensureToken env a p st of
        Inl out \<Rightarrow> out
      | Inr st1 \<Rightarrow>
          (case buildPayloadV2 (uuids env) (stamps env) messageContent (a_model a) (a_chatId a) (a_parentId a)
                  (a_files a) (a_systemMessage a) (a_tools a) (a_toolChoice a) (a_chatType a) (a_size a) of
             Inl e \<Rightarrow> (Throws e (Some p), st1)
           | Inr pl \<Rightarrow>
               (case executeApiRequest P (clock env) (upstream env) (a_chatId a) pl (authToken st1) st1 of
                  (Inl e, st2) \<Rightarrow> (Throws e (Some p), st2)
                | (Inr response, st2) \<Rightarrow>
                    if r_success response \<and> r_isTask response then
                      sm_task cfg P env a p (r_taskData response) (resume (others env AfterFetch) st2)
                    else
                      let st3 = pagePool_releasePage cfg p (resume (others env AfterFetch) st2)
                      in if r_success response then
                           (case r_completion response of
                              None \<Rightarrow> (Throws TypeError None, st3)
                            | Some c \<Rightarrow>
                                (Returns (RCompletion
                                   (c\<lparr>c_chatId := a_chatId a, c_parentId := c_response_id c,
                                      c_id := js_or (c_id c) (chatcmplId (clock env))\<rparr>)) None, st3))
                         else (CallsHandleApiError response, st3))))"

text \<open>
  Lines 514 to 519, then the rest of the \<open>try\<close> block, which begins by reading
  \<open>authToken\<close> as it is by then.
\<close>

definition sm_try ::
  "config \<Rightarrow> platform \<Rightarrow> attempt_env \<Rightarrow> send_args \<Rightarrow> jsval \<Rightarrow> browser_context option \<Rightarrow> state
     \<Rightarrow> body_outcome \<times> state" where
  "sm_try cfg P env a messageContent ctx st =
     (case pagePool_getPage ctx (poolPage env) (resume (others env AfterResolve) st) of
        (Inl e, st1) \<Rightarrow> (Throws e None, st1)
      | (Inr p, st1) \<Rightarrow>
          (case checkVerificationResult env of
             Inl e \<Rightarrow> (Throws e (Some p), st1)
           | Inr verificationNeeded \<Rightarrow>
               if verificationNeeded then
                 (case reloadThrows env of
                    Some e \<Rightarrow> (Throws e (Some p), perform (EvReload p) st1)
                  | None \<Rightarrow>
                      sm_request cfg P env a messageContent p
                        (resume (others env AfterPage) (perform (EvReload p) st1)))
               else sm_request cfg P env a messageContent p (resume (others env AfterPage) st1)))"

text \<open>
  One invocation of \<open>sendMessage\<close> ends with a result, or goes on in \<open>handleApiError\<close>
  with the response, the account and the arguments as they are at line 612.
\<close>

datatype attempt_outcome = Done send_result | Escalate api_response token_obj send_args

text \<open>The \<open>catch\<close> and \<open>finally\<close> blocks, lines 613 to 624.\<close>

definition settle ::
  "browser_context option \<Rightarrow> send_args \<Rightarrow> token_obj \<Rightarrow> body_outcome \<times> state \<Rightarrow> attempt_outcome \<times> state" where
  "settle ctx a tokenObj out =
     (case out of
        (Returns r pg, st) \<Rightarrow> (Done r, finallyClose ctx pg st)
      | (Throws e pg, st) \<Rightarrow> (Done (RError (Text (exnToString e)) (a_chatId a)), finallyClose ctx pg st)
      | (CallsHandleApiError response, st) \<Rightarrow> (Escalate response tokenObj a, st))"

text \<open>Lines 480 to 485.\<close>

definition ensureChat :: "config \<Rightarrow> attempt_env \<Rightarrow> send_args \<Rightarrow> state \<Rightarrow> (attempt_outcome \<times> state) + (jsval \<times> state)" where
  "ensureChat cfg env a st =
     (if \<not> truthy (a_chatId a) then
        (case createChatV2 cfg (a_model a) env st of
           (ChatError e, st1) \<Rightarrow>
             if errTruthy e then Inl (Done (RChatError (ChatNotCreated e)), st1)
             else Inr (JUndefined, st1)
         | (ChatCreated c, st1) \<Rightarrow> Inr (c, st1))
      else Inr (a_chatId a, st))"

text \<open>
  Lines 487 to 624: what \<open>sendMessage\<close> does once the chat is there, \<open>cid\<close> being the
  value of \<open>chatId\<close> from then on.
\<close>

definition sm_afterChat ::
  "config \<Rightarrow> platform \<Rightarrow> attempt_env \<Rightarrow> send_args \<Rightarrow> jsval \<Rightarrow> state \<Rightarrow> attempt_outcome \<times> state" where
  "sm_afterChat cfg P env a cid st1 =
     (case validateAndPrepareMessage (a_message a) of
        Inl e \<Rightarrow> (Done (RThrown e), st1)
      | Inr (VError e) \<Rightarrow> (Done (RError e cid), st1)
      | Inr (VContent messageContent) \<Rightarrow>
          (case chooseModel cfg (a_model a) st1 of
             (m, st2) \<Rightarrow>
               (case browserContext env of
                  None \<Rightarrow> (Done (RError BrowserNotInitialised cid), st2)
                | Some c \<Rightarrow>
                    (case resolveAuthToken (Some c) env st2 of
                       (None, st3) \<Rightarrow> (Done (RError AuthorizationFailed cid), st3)
                     | (Some tokenObj, st3) \<Rightarrow>
                         settle (Some c) (a\<lparr>a_model := m, a_chatId := cid\<rparr>) tokenObj
                           (sm_try cfg P env (a\<lparr>a_model := m, a_chatId := cid\<rparr>) messageContent
                              (Some c) st3)))))"

text \<open>
  The body of \<open>sendMessage\<close> up to the call of \<open>handleApiError\<close>, with the environment of
  this invocation and the default values of the parameters.
\<close>

definition sm_attempt :: "config \<Rightarrow> platform \<Rightarrow> attempt_env \<Rightarrow> send_args \<Rightarrow> state \<Rightarrow> attempt_outcome \<times> state" where
  "sm_attempt cfg P env a st =
     (case ensureChat cfg env (defaultArgs a)
             (loadModels cfg (perform (EvSendMessage (a_retryCount a)) st)) of
        Inl out \<Rightarrow> out
      | Inr (cid, st1) \<Rightarrow> sm_afterChat cfg P env (defaultArgs a) cid st1)"

text \<open>The three tests of \<open>handleApiError\<close>, lines 427, 437 and 454.\<close>

definition hasVerificationMarker :: "api_response \<Rightarrow> bool" where
  "hasVerificationMarker response =
     (case r_html response of None \<Rightarrow> False | Some h \<Rightarrow> h \<noteq> [] \<and> strIncludes h ''Verification'')"

definition isUnauthorized :: "api_response \<Rightarrow> bool" where
  "isUnauthorized response =
     (r_status response = JNumber (Fin 401)
      \<or> (case r_errorBody response of
            None \<Rightarrow> False
          | Some b \<Rightarrow> b \<noteq> [] \<and> (strIncludes b ''Unauthorized'' \<or> strIncludes b ''Token has expired'')))"

definition hasRateLimitMarker :: "api_response \<Rightarrow> bool" where
  "hasRateLimitMarker response =
     (case r_errorBody response of None \<Rightarrow> False | Some b \<Rightarrow> b \<noteq> [] \<and> strIncludes b ''RateLimited'')"

text \<open>Lines 428 to 434.\<close>

definition restartForVerification :: "state \<Rightarrow> state" where
  "restartForVerification st =
     perform (EvInitBrowser True)
       (perform EvShutdownBrowser
          ((pagePool_clear (perform (EvSetAuthenticationStatus False) st))\<lparr>authToken := None\<rparr>))"

text \<open>Lines 439 to 443.\<close>

definition dropAccount :: "token_obj \<Rightarrow> state \<Rightarrow> state" where
  "dropAccount tokenObj st =
     (if tok_id tokenObj \<noteq> [] then perform (EvMarkInvalid (tok_id tokenObj)) (st\<lparr>authToken := None\<rparr>)
      else st\<lparr>authToken := None\<rparr>)"

text \<open>Lines 448 to 451.\<close>

definition exitProcess :: "state \<Rightarrow> state" where
  "exitProcess st = perform (EvProcessExit 1) (perform EvShutdownBrowser (pagePool_clear st))"

text \<open>
  Lines 455 to 465: the \<open>try\<close> block that reads the hours and marks the account, then
  \<open>authToken = null\<close>.
\<close>

definition markFromBody :: "platform \<Rightarrow> api_response \<Rightarrow> token_obj \<Rightarrow> state \<Rightarrow> state" where
  "markFromBody P response tokenObj st =
     (let st1 =
        (case JSON_parse P (case r_errorBody response of None \<Rightarrow> [] | Some b \<Rightarrow> b) of
           None \<Rightarrow> st
         | Some rateInfo \<Rightarrow>
             (case getProp rateInfo ''num'' of
                Inl e \<Rightarrow> st
              | Inr num \<Rightarrow>
                  let hours = js_or (JNumber (toNumber P num)) (JNumber (Fin 24))
                  in if tok_id tokenObj \<noteq> [] then perform (EvMarkRateLimited (tok_id tokenObj) hours) st
                     else st))
      in st1\<lparr>authToken := None\<rparr>)"

text \<open>Line 472.\<close>

definition genericError :: "api_response \<Rightarrow> jsval \<Rightarrow> send_result" where
  "genericError response cid =
     RDetails
       (case r_error response of
          None \<Rightarrow> map_option Text (r_statusText response)
        | Some e \<Rightarrow> if errTruthy e then Some e else map_option Text (r_statusText response))
       (case r_errorBody response of
          None \<Rightarrow> NoDetails
        | Some b \<Rightarrow> if b \<noteq> [] then Text b else NoDetails)
       cid"

text \<open>The arguments of the retry: \<open>tools\<close>, \<open>toolChoice\<close> and \<open>systemMessage\<close> are \<open>null\<close>.\<close>

definition retryArgs :: "send_args \<Rightarrow> nat \<Rightarrow> send_args" where
  "retryArgs a rc = a\<lparr>a_tools := JNull, a_toolChoice := JNull, a_systemMessage := JNull, a_retryCount := rc + 1\<rparr>"

text \<open>
  \<open>sendMessage\<close> and \<open>handleApiError\<close> call each other. \<open>envs n\<close> is the environment of
  the invocation of \<open>sendMessage\<close> with \<open>retryCount = n\<close>. \<open>handleApiError\<close> takes its
  parameters \<open>message\<close>, \<open>model\<close>, \<open>chatId\<close>, \<open>parentId\<close>, \<open>files\<close>, \<open>chatType\<close>,
  \<open>size\<close> and \<open>waitForCompletion\<close> in \<open>a\<close> and \<open>retryCount\<close> in \<open>rc\<close>.
\<close>

function sendMessage ::
    "config \<Rightarrow> platform \<Rightarrow> (nat \<Rightarrow> attempt_env) \<Rightarrow> send_args \<Rightarrow> state \<Rightarrow> send_result \<times> state"
  and handleApiError ::
    "config \<Rightarrow> platform \<Rightarrow> (nat \<Rightarrow> attempt_env) \<Rightarrow> api_response \<Rightarrow> token_obj \<Rightarrow> send_args \<Rightarrow> nat
       \<Rightarrow> state \<Rightarrow> send_result \<times> state" where
  "sendMessage cfg P envs a st =
     (case sm_attempt cfg P (envs (a_retryCount a)) a st of
        (Done r, st1) \<Rightarrow> (r, st1)
      | (Escalate response tokenObj a1, st1) \<Rightarrow>
          handleApiError cfg P envs response tokenObj a1 (a_retryCount a) st1)"
| "handleApiError cfg P envs response tokenObj a rc st =
     (if hasVerificationMarker response then
        (RVerification VerificationRequired (a_chatId a), restartForVerification st)
      else if isUnauthorized response then
        (if hasValidTokens (envs rc) \<and> rc < MAX_RETRY_COUNT cfg then
           sendMessage cfg P envs (retryArgs a rc) (dropAccount tokenObj st)
         else (RExit 1, exitProcess (dropAccount tokenObj st)))
      else if hasRateLimitMarker response then
        (if rc < MAX_RETRY_COUNT cfg then
           sendMessage cfg P envs (retryArgs a rc) (markFromBody P response tokenObj st)
         else (RError AllTokensRateLimited (a_chatId a), markFromBody P response tokenObj st))
      else (genericError response (a_chatId a), st))"
  by pat_completeness auto
termination
  by (relation "measure (\<lambda>x. case x of
          Inl (cfg, P, envs, a, st) \<Rightarrow> 2 * (Suc (MAX_RETRY_COUNT cfg) - a_retryCount a) + 1
        | Inr (cfg, P, envs, response, tokenObj, a, rc, st) \<Rightarrow> 2 * (Suc (MAX_RETRY_COUNT cfg) - rc))")
     (auto simp: retryArgs_def)

section \<open>Sample values for the examples\<close>

definition sample_config :: config where
  "sample_config =
     \<lparr>PAGE_POOL_SIZE = 3, MAX_RETRY_COUNT = 3, DEFAULT_MODEL = ''qwen-max-latest'',
      TASK_POLL_MAX_ATTEMPTS = 90, modelsFromFile = [''qwen-max-latest'', ''qwen3-vl-plus'']\<rparr>"

definition sample_state :: state where
  "sample_state = \<lparr>authToken = None, pages = [], availableModels = None, nextPage = 0, trace = []\<rparr>"

definition sample_args :: send_args where
  "sample_args =
     \<lparr>a_message = JString ''What is the capital of France?'', a_model = ''qwen-max-latest'',
      a_chatId = JString ''chat-1'', a_parentId = JNull, a_files = JNull, a_tools = JNull,
      a_toolChoice = JNull, a_systemMessage = JNull, a_chatType = ''t2t'', a_size = JNull,
      a_waitForCompletion = True, a_retryCount = 0\<rparr>"

definition sample_account :: token_obj where
  "sample_account = \<lparr>tok_id = ''acc-1'', tok_token = ''token-1''\<rparr>"

definition sample_page_env :: page_env where
  "sample_page_env =
     \<lparr>newPageThrows = None, gotoThrows = None, localStorageToken = Inr None, meanwhile = None\<rparr>"

text \<open>
  An environment in which the browser is a context that opens new pages, the token
  manager has an account, the upstream service answers 401 to every chat request, and no
  other request interferes.
\<close>

definition sample_env :: attempt_env where
  "sample_env =
     \<lparr>browserContext = Some \<lparr>ctx_goto = None, ctx_newPage = True\<rparr>,
      chat_availableToken = Some sample_account,
      chat_extractPage = sample_page_env,
      chat_poolPage = sample_page_env,
      chat_response = (\<lambda>m. CreateOk (JObject [(''success'', JBool True),
                                               (''data'', JObject [(''id'', JString ''chat-1'')])])),
      availableToken = Some sample_account,
      authenticationStatus = True,
      checkAuthenticationResult = True,
      extractPage = sample_page_env,
      poolPage = sample_page_env,
      checkVerificationResult = Inr False,
      reloadThrows = None,
      pageToken = Inr None,
      upstream = RespondsNotOk (JNumber (Fin 401)) ''Unauthorized'' sample_body_unauthorized,
      taskTicks = ticks_processing,
      hasValidTokens = True,
      clock = ''1700000000000'',
      stamps = (''1700000000'', ''1700000000''),
      uuids = (''uuid-1'', ''uuid-2''),
      others = (\<lambda>pt. noInterference)\<rparr>"

text \<open>Error bodies used in the examples, and the responses that carry them.\<close>

definition sample_body_verification :: string where
  \<open>sample_body_verification = ''<html><title>Verification</title></html>''\<close>

definition sample_body_plain :: string where
  \<open>sample_body_plain = ''Too many requests: RateLimited''\<close>

definition sample_response_verification :: api_response where
  "sample_response_verification =
     failure\<lparr>r_status := JNumber (Fin 403), r_statusText := Some ''Forbidden'',
             r_errorBody := Some sample_body_verification\<rparr>"

definition sample_response_401 :: api_response where
  "sample_response_401 =
     failure\<lparr>r_status := JNumber (Fin 401), r_statusText := Some ''Unauthorized'',
             r_errorBody := Some sample_body_unauthorized\<rparr>"

definition sample_response_num2 :: api_response where
  "sample_response_num2 =
     failure\<lparr>r_status := JNumber (Fin 429), r_statusText := Some ''Too Many Requests'',
             r_errorBody := Some sample_body_num2\<rparr>"

definition sample_response_plain :: api_response where
  "sample_response_plain =
     failure\<lparr>r_status := JNumber (Fin 429), r_statusText := Some ''Too Many Requests'',
             r_errorBody := Some sample_body_plain\<rparr>"

text \<open>\<open>Number(rateInfo.num) || 24\<close>\<close>

definition hoursOf :: "platform \<Rightarrow> jsval \<Rightarrow> jsval" where
  "hoursOf P rateInfo = js_or (JNumber (toNumber P (field rateInfo ''num''))) (JNumber (Fin 24))"

text \<open>The payload that \<open>buildPayloadV2\<close> builds for the sample arguments.\<close>

definition sample_payload :: payload where
  "sample_payload =
     \<lparr>p_stream = True, p_incremental_output = True, p_chat_id = JString ''chat-1'',
      p_chat_mode = ''normal'',
      p_messages =
        [\<lparr>m_fid = ''uuid-1'', m_parentId = JNull, m_role = ''user'',
          m_content = JString ''What is the capital of France?'', m_chat_type = ''t2t'',
          m_timestamp = ''1700000000'', m_user_action = ''chat'', m_models = [''qwen-max-latest''],
          m_files = JArray [], m_childrenIds = [''uuid-2''],
          m_feature_config =
            \<lparr>thinking_enabled = False, output_schema = ''phase'', research_mode = None,
             auto_thinking = None, thinking_format = None, auto_search = None\<rparr>\<rparr>],
      p_model = ''qwen-max-latest'', p_parent_id = JNull, p_timestamp = ''1700000000'',
      p_size = None, p_system_message = None, p_tools = None, p_tool_choice = None\<rparr>"

text \<open>
  The environments of successive invocations: each finds another account, and every
  chat request is answered 401.
\<close>

definition sample_envs :: "nat \<Rightarrow> attempt_env" where
  "sample_envs n =
     sample_env\<lparr>availableToken :=
       Some (if n = 0 then \<lparr>tok_id = ''acc-1'', tok_token = ''token-1''\<rparr>
             else if n = 1 then \<lparr>tok_id = ''acc-2'', tok_token = ''token-2''\<rparr>
             else if n = 2 then \<lparr>tok_id = ''acc-3'', tok_token = ''token-3''\<rparr>
             else \<lparr>tok_id = ''acc-4'', tok_token = ''token-4''\<rparr>)\<rparr>"

text \<open>The same environment at every invocation.\<close>

definition always :: "attempt_env \<Rightarrow> nat \<Rightarrow> attempt_env" where
  "always env n = env"

text \<open>
  Another request clears the token (line 439 or 465 of its \<open>handleApiError\<close>) while this one
  is suspended.
\<close>

definition cleared :: interference where
  "cleared = \<lparr>tokenBecomes = Some None, pagesBecome = None\<rparr>"





text \<open>The upstream service answers a video request with the body \<open>null\<close>.\<close>

definition sample_env_null :: attempt_env where
  "sample_env_null = sample_env\<lparr>upstream := RespondsOk (Inr JNull) []\<rparr>"

section \<open>Requests sharing the page pool\<close>

text \<open>
  The requests in flight take pages from the pool and give them back, in any order:
  \<open>Acquire pe\<close> is one call of \<open>pagePool.getPage\<close> (with the answers \<open>pe\<close> of a page
  that may have to be set up), \<open>Release p\<close> is one call of \<open>pagePool.releasePage(p)\<close> by
  a request that holds \<open>p\<close>. The list \<open>held\<close> has one entry for every page that a
  request holds.
\<close>

datatype pool_op = Acquire page_env | Release page

fun poolStep :: "config \<Rightarrow> browser_context option \<Rightarrow> state \<times> page list \<Rightarrow> pool_op \<Rightarrow> state \<times> page list" where
  "poolStep cfg ctx (st, held) (Acquire pe) =
     (case pagePool_getPage ctx pe st of
        (Inl e, st') \<Rightarrow> (st', held)
      | (Inr p, st') \<Rightarrow> (st', p # held))"
| "poolStep cfg ctx (st, held) (Release p) =
     (if p \<in> set held then (pagePool_releasePage cfg p st, remove1 p held) else (st, held))"

definition poolRun :: "config \<Rightarrow> browser_context option \<Rightarrow> state \<times> page list \<Rightarrow> pool_op list \<Rightarrow> state \<times> page list" where
  "poolRun cfg ctx w ops = foldl (poolStep cfg ctx) w ops"

text \<open>
  No page is idle twice, held twice, or idle and held; and every page is older than the
  next one that \<open>context.newPage()\<close> will answer.
\<close>

definition poolInv :: "state \<times> page list \<Rightarrow> bool" where
  "poolInv w = (distinct (pages (fst w) @ snd w) \<and> list_all (\<lambda>p. p < nextPage (fst w)) (pages (fst w) @ snd w))"

text \<open>The browser context is not itself a page.\<close>

definition opensPages :: "browser_context option \<Rightarrow> bool" where
  "opensPages ctx = (case ctx of None \<Rightarrow> True | Some c \<Rightarrow> ctx_goto c = None)"

definition sample_page_context :: "browser_context option" where
  "sample_page_context = Some \<lparr>ctx_goto = Some 7, ctx_newPage = False\<rparr>"

section \<open>Reading the trace\<close>

text \<open>
  The retry counts of the invocations of \<open>sendMessage\<close> in a trace, in order; and what it
  is for an upstream request to be authenticated: it carries a token that is not empty.
\<close>

fun invocation :: "event \<Rightarrow> nat list" where
  "invocation (EvSendMessage n) = [n]"
| "invocation e = []"

definition invocations :: "event list \<Rightarrow> nat list" where
  "invocations evs = concat (map invocation evs)"

fun authenticated :: "event \<Rightarrow> bool" where
  "authenticated (EvStatusCheck taskId t) = tokenTruthy t"
| "authenticated (EvCreateChatFetch t m) = tokenTruthy t"
| "authenticated (EvChatFetch c t pl) = tokenTruthy t"
| "authenticated e = True"

text \<open>The same for the chat request alone, which \<open>executeApiRequest\<close> sends.\<close>

fun chatAuthenticated :: "event \<Rightarrow> bool" where
  "chatAuthenticated (EvChatFetch c t pl) = tokenTruthy t"
| "chatAuthenticated e = True"

text \<open>A chat request carries the model \<open>d\<close>; \<open>None\<close> asks for nothing.\<close>

fun carries :: "string option \<Rightarrow> event \<Rightarrow> bool" where
  "carries (Some d) (EvChatFetch c t pl) = (p_model pl = d)"
| "carries d e = True"

text \<open>
  No other request clears the token between the moment \<open>createChatV2\<close> has one and its
  request (lines 667 to 674), nor during the chat request (line 535): what the token
  becomes there, if anything, is a token again.
\<close>

definition keepsToken :: "string option option \<Rightarrow> bool" where
  "keepsToken tb = (case tb of None \<Rightarrow> True | Some t \<Rightarrow> tokenTruthy t)"

definition tokenKept :: "attempt_env \<Rightarrow> bool" where
  "tokenKept env =
     (keepsToken (meanwhile (chat_poolPage env))
      \<and> keepsToken (tokenBecomes (others env AfterChatPage))
      \<and> keepsToken (tokenBecomes (others env AfterFetch)))"

text \<open>
  \<open>proper b d e\<close>: if the event \<open>e\<close> is a chat request it is authenticated and carries the
  model \<open>d\<close>; and if \<open>b\<close> holds it is authenticated whatever request it is. \<open>orderly b d e\<close>:
  moreover it is no invocation of \<open>sendMessage\<close>.
\<close>

definition proper :: "bool \<Rightarrow> string option \<Rightarrow> event \<Rightarrow> bool" where
  "proper b d e = (chatAuthenticated e \<and> carries d e \<and> (b \<longrightarrow> authenticated e))"

definition orderly :: "bool \<Rightarrow> string option \<Rightarrow> event \<Rightarrow> bool" where
  "orderly b d e = (invocation e = [] \<and> proper b d e)"

text \<open>\<open>grows Q st st'\<close>: the trace of \<open>st'\<close> is that of \<open>st\<close> followed by events that satisfy \<open>Q\<close>.\<close>

definition grows :: "(event \<Rightarrow> bool) \<Rightarrow> state \<Rightarrow> state \<Rightarrow> bool" where
  "grows Q st st' = (\<exists>evs. trace st' = trace st @ evs \<and> list_all Q evs)"

text \<open>
  \<open>runsFrom b d k n st st'\<close>: the trace of \<open>st'\<close> is that of \<open>st\<close> followed by events among
  which the invocations of \<open>sendMessage\<close> are those with the retry counts \<open>k\<close>, \<open>k + 1\<close>,
  ..., \<open>k + n - 1\<close>, in this order, and all are proper.
\<close>

definition runsFrom :: "bool \<Rightarrow> string option \<Rightarrow> nat \<Rightarrow> nat \<Rightarrow> state \<Rightarrow> state \<Rightarrow> bool" where
  "runsFrom b d k n st st' =
     (\<exists>evs. trace st' = trace st @ evs
            \<and> list_all (proper b d) evs
            \<and> invocations evs = [k ..< k + n])"

text \<open>
  The models that \<open>isValidModel\<close> compares with: the list that is loaded, or the list of
  the file when none is loaded yet.
\<close>

definition knownModels :: "config \<Rightarrow> state \<Rightarrow> string list" where
  "knownModels cfg st = (case availableModels st of None \<Rightarrow> modelsFromFile cfg | Some ms \<Rightarrow> ms)"

text \<open>
  The choice of lines 494 to 499, stated directly: the default model if \<open>model\<close> is empty,
  consists of white space or is not among the known models, and \<open>model\<close> itself otherwise.
\<close>

definition effectiveModel :: "config \<Rightarrow> state \<Rightarrow> string \<Rightarrow> string" where
  "effectiveModel cfg st m =
     (if m = [] \<or> trim m = [] \<or> m \<notin> set (knownModels cfg st) then DEFAULT_MODEL cfg else m)"

text \<open>
  The result `verification required', and the outcomes that are not it: a result of
  another shape, or a call of \<open>handleApiError\<close> with a response that has no \<open>html\<close>.
\<close>

fun isVerificationResult :: "send_result \<Rightarrow> bool" where
  "isVerificationResult (RVerification e c) = True"
| "isVerificationResult r = False"

fun plainBody :: "body_outcome \<Rightarrow> bool" where
  "plainBody (Returns r pg) = (\<not> isVerificationResult r)"
| "plainBody (Throws e pg) = True"
| "plainBody (CallsHandleApiError response) = (r_html response = None)"

fun plainAttempt :: "attempt_outcome \<Rightarrow> bool" where
  "plainAttempt (Done r) = (\<not> isVerificationResult r)"
| "plainAttempt (Escalate response tokenObj a) = (r_html response = None)"

section \<open>Properties of the task poller\<close>

declare pollFrom.simps [simp del]

lemma fst_emit [simp]: "fst (emit evs r) = fst r"
  by (simp add: emit_def)

lemma snd_emit [simp]: "snd (emit evs r) = evs @ snd r"
  by (simp add: emit_def)

lemma pollFrom_pending_step:
  assumes "a \<le> m" and "tickState (ticks a) = Pending"
  shows "pollFrom ticks i t m a =
           emit ([EvStatusCheck i t] @ delayUnlessLast a m) (pollFrom ticks i t m (Suc a))"
  using assms
  by (subst pollFrom.simps)
     (auto simp: tickState_def emit_def split: tick.splits sum.splits if_splits)

lemma pollFrom_terminal_step:
  assumes "a \<le> m" and "tickState (ticks a) \<noteq> Pending"
  shows "statusChecks (snd (pollFrom ticks i t m a)) = 1 \<and>
         pr_status (fst (pollFrom ticks i t m a)) =
           (if tickState (ticks a) = Completed then ''completed'' else ''failed'')"
  using assms
  by (subst (1 2) pollFrom.simps)
     (auto simp: tickState_def emit_def statusChecks_def split: tick.splits sum.splits if_splits)

lemma pollFrom_past_end:
  assumes "m < a"
  shows "pollFrom ticks i t m a =
    (\<lparr>pr_success = False, pr_status = ''timeout'',
      pr_error = Some (JString ''Task polling timeout exceeded''), pr_data = None\<rparr>, [])"
  using assms by (subst pollFrom.simps) simp

lemma pollFrom_checks_le: "statusChecks (snd (pollFrom ticks i t m a)) \<le> Suc m - a"
proof (induction "Suc m - a" arbitrary: a)
  case 0
  then have "m < a" by simp
  then show ?case by (simp add: pollFrom_past_end statusChecks_def)
next
  case (Suc n)
  then have le: "a \<le> m" and n: "n = Suc m - Suc a" by simp_all
  show ?case
  proof (cases "tickState (ticks a) = Pending")
    case True
    from Suc.hyps(1) [OF n]
    have "statusChecks (snd (pollFrom ticks i t m (Suc a))) \<le> Suc m - Suc a" .
    with le show ?thesis
      by (simp add: pollFrom_pending_step [where ticks=ticks, OF le True]
            statusChecks_def delayUnlessLast_def)
  next
    case False
    from pollFrom_terminal_step [where ticks=ticks, OF le False] le show ?thesis by simp
  qed
qed

lemma pollFrom_status: "pr_status (fst (pollFrom ticks i t m a)) \<in> {''completed'', ''failed'', ''timeout''}"
proof (induction "Suc m - a" arbitrary: a)
  case 0
  then have "m < a" by simp
  then show ?case by (simp add: pollFrom_past_end)
next
  case (Suc n)
  then have le: "a \<le> m" and n: "n = Suc m - Suc a" by simp_all
  show ?case
  proof (cases "tickState (ticks a) = Pending")
    case True
    from Suc.hyps(1) [OF n] show ?thesis
      by (simp add: pollFrom_pending_step [where ticks=ticks, OF le True])
  next
    case False
    from pollFrom_terminal_step [where ticks=ticks, OF le False] show ?thesis by simp
  qed
qed

lemma pollFrom_all_pending:
  assumes "\<forall>j. a \<le> j \<and> j \<le> m \<longrightarrow> tickState (ticks j) = Pending"
  shows "statusChecks (snd (pollFrom ticks i t m a)) = Suc m - a \<and>
         pr_status (fst (pollFrom ticks i t m a)) = ''timeout''"
  using assms
proof (induction "Suc m - a" arbitrary: a)
  case 0
  then have "m < a" by simp
  then show ?case by (simp add: pollFrom_past_end statusChecks_def)
next
  case (Suc n)
  then have le: "a \<le> m" and n: "n = Suc m - Suc a" by simp_all
  from Suc.prems le have p: "tickState (ticks a) = Pending" by simp
  from Suc.prems have "\<forall>j. Suc a \<le> j \<and> j \<le> m \<longrightarrow> tickState (ticks j) = Pending" by simp
  from Suc.hyps(1) [OF n this] le show ?case
    by (simp add: pollFrom_pending_step [where ticks=ticks, OF le p]
          statusChecks_def delayUnlessLast_def)
qed

lemma pollFrom_first_terminal:
  assumes "a \<le> k" and "k \<le> m"
    and "\<forall>j. a \<le> j \<and> j < k \<longrightarrow> tickState (ticks j) = Pending"
    and "tickState (ticks k) \<noteq> Pending"
  shows "statusChecks (snd (pollFrom ticks i t m a)) = Suc k - a \<and>
         pr_status (fst (pollFrom ticks i t m a)) =
           (if tickState (ticks k) = Completed then ''completed'' else ''failed'')"
  using assms
proof (induction "k - a" arbitrary: a)
  case 0
  then have "a = k" by simp
  with pollFrom_terminal_step [of k m ticks i t] 0 show ?case by simp
next
  case (Suc n)
  then have lt: "a < k" and le: "a \<le> m" and n: "n = k - Suc a" by simp_all
  from Suc.prems lt have p: "tickState (ticks a) = Pending" by simp
  from Suc.prems have "\<forall>j. Suc a \<le> j \<and> j < k \<longrightarrow> tickState (ticks j) = Pending" by simp
  from Suc.hyps(1) [OF n _ Suc.prems(2) this Suc.prems(4)] lt show ?case
    by (simp add: pollFrom_pending_step [where ticks=ticks, OF le p]
          statusChecks_def delayUnlessLast_def)
qed

lemma transportFails_pending: "transportFails t \<Longrightarrow> tickState t = Pending"
  by (cases t) (simp_all add: transportFails_def tickState_def)

text \<open>
  Claim C3. \<open>pollTaskStatus\<close> issues at most \<open>maxAttempts\<close> status checks and always ends
  completed, failed or timed out. If tick \<open>k\<close> is the first to report a terminal status,
  exactly \<open>k\<close> checks are issued and the result carries that status. If none of the
  \<open>maxAttempts\<close> ticks reports a terminal status, exactly \<open>maxAttempts\<close> checks are
  issued and the result has status \<open>timeout\<close>. A tick whose transport fails leaves the
  poller pending: the loop goes on with the next attempt, one attempt spent.
\<close>

theorem pollTaskStatus_bounded:
  "statusChecks (snd (pollTaskStatus ticks taskId token maxAttempts)) \<le> maxAttempts
   \<and> pr_status (fst (pollTaskStatus ticks taskId token maxAttempts))
        \<in> {''completed'', ''failed'', ''timeout''}
   \<and> (\<forall>k. 1 \<le> k \<and> k \<le> maxAttempts
          \<and> (\<forall>j. 1 \<le> j \<and> j < k \<longrightarrow> tickState (ticks j) = Pending)
          \<and> tickState (ticks k) \<noteq> Pending
        \<longrightarrow> statusChecks (snd (pollTaskStatus ticks taskId token maxAttempts)) = k
          \<and> pr_status (fst (pollTaskStatus ticks taskId token maxAttempts)) =
              (if tickState (ticks k) = Completed then ''completed'' else ''failed''))
   \<and> ((\<forall>j. 1 \<le> j \<and> j \<le> maxAttempts \<longrightarrow> tickState (ticks j) = Pending)
        \<longrightarrow> statusChecks (snd (pollTaskStatus ticks taskId token maxAttempts)) = maxAttempts
          \<and> pr_status (fst (pollTaskStatus ticks taskId token maxAttempts)) = ''timeout'')
   \<and> (\<forall>a. a \<le> maxAttempts \<and> transportFails (ticks a)
        \<longrightarrow> tickState (ticks a) = Pending
          \<and> pollFrom ticks taskId token maxAttempts a =
              emit ([EvStatusCheck taskId token] @ delayUnlessLast a maxAttempts)
                (pollFrom ticks taskId token maxAttempts (Suc a)))"
proof (intro conjI allI impI)
  show "statusChecks (snd (pollTaskStatus ticks taskId token maxAttempts)) \<le> maxAttempts"
    using pollFrom_checks_le [of ticks taskId token maxAttempts 1]
    by (simp add: pollTaskStatus_def)
  show "pr_status (fst (pollTaskStatus ticks taskId token maxAttempts))
          \<in> {''completed'', ''failed'', ''timeout''}"
    unfolding pollTaskStatus_def by (rule pollFrom_status)
next
  fix k
  assume h: "1 \<le> k \<and> k \<le> maxAttempts
    \<and> (\<forall>j. 1 \<le> j \<and> j < k \<longrightarrow> tickState (ticks j) = Pending)
    \<and> tickState (ticks k) \<noteq> Pending"
  from h pollFrom_first_terminal [of 1 k maxAttempts ticks taskId token]
  show "statusChecks (snd (pollTaskStatus ticks taskId token maxAttempts)) = k"
    and "pr_status (fst (pollTaskStatus ticks taskId token maxAttempts)) =
          (if tickState (ticks k) = Completed then ''completed'' else ''failed'')"
    by (simp_all add: pollTaskStatus_def)
next
  assume h: "\<forall>j. 1 \<le> j \<and> j \<le> maxAttempts \<longrightarrow> tickState (ticks j) = Pending"
  from pollFrom_all_pending [of 1 maxAttempts ticks taskId token] h
  show "statusChecks (snd (pollTaskStatus ticks taskId token maxAttempts)) = maxAttempts"
    and "pr_status (fst (pollTaskStatus ticks taskId token maxAttempts)) = ''timeout''"
    by (simp_all add: pollTaskStatus_def)
next
  fix a
  assume h: "a \<le> maxAttempts \<and> transportFails (ticks a)"
  then show p: "tickState (ticks a) = Pending"
    by (simp add: transportFails_pending)
  from h p show "pollFrom ticks taskId token maxAttempts a =
      emit ([EvStatusCheck taskId token] @ delayUnlessLast a maxAttempts)
        (pollFrom ticks taskId token maxAttempts (Suc a))"
    by (simp add: pollFrom_pending_step)
qed

lemma tickState_third_succeeds:
  "tickState (ticks_third_succeeds a) = (if a = 3 then Completed else Pending)"
  by (simp add: ticks_third_succeeds_def tickState_def taskStatusOf_def getProp_def js_or_def)

lemma tickState_processing: "tickState (ticks_processing a) = Pending"
  by (simp add: ticks_processing_def tickState_def taskStatusOf_def getProp_def js_or_def)

theorem pollTaskStatus_bounded_witness:
  "statusChecks (snd (pollTaskStatus ticks_third_succeeds (JString ''t1'') (Some ''tok'') 5)) = 3
   \<and> pr_status (fst (pollTaskStatus ticks_third_succeeds (JString ''t1'') (Some ''tok'') 5)) = ''completed''
   \<and> statusChecks (snd (pollTaskStatus ticks_processing (JString ''t1'') (Some ''tok'') 3)) = 3
   \<and> pr_status (fst (pollTaskStatus ticks_processing (JString ''t1'') (Some ''tok'') 3)) = ''timeout''
   \<and> transportFails (ticks_third_succeeds 2)
   \<and> pollFrom ticks_third_succeeds (JString ''t1'') (Some ''tok'') 5 2 =
       emit [EvStatusCheck (JString ''t1'') (Some ''tok''), EvDelay]
         (pollFrom ticks_third_succeeds (JString ''t1'') (Some ''tok'') 5 3)"
proof -
  note a = pollTaskStatus_bounded [of ticks_third_succeeds "JString ''t1''" "(Some ''tok'')" 5]
  note b = pollTaskStatus_bounded [of ticks_processing "JString ''t1''" "(Some ''tok'')" 3]
  have t: "transportFails (ticks_third_succeeds 2)"
    by (simp add: ticks_third_succeeds_def transportFails_def)
  from a have "(1::nat) \<le> 3 \<and> (3::nat) \<le> 5
      \<and> (\<forall>j. 1 \<le> j \<and> j < 3 \<longrightarrow> tickState (ticks_third_succeeds j) = Pending)
      \<and> tickState (ticks_third_succeeds 3) \<noteq> Pending
     \<longrightarrow> statusChecks (snd (pollTaskStatus ticks_third_succeeds (JString ''t1'') (Some ''tok'') 5)) = 3
      \<and> pr_status (fst (pollTaskStatus ticks_third_succeeds (JString ''t1'') (Some ''tok'') 5)) =
          (if tickState (ticks_third_succeeds 3) = Completed then ''completed'' else ''failed'')"
    by blast
  then have c1: "statusChecks (snd (pollTaskStatus ticks_third_succeeds (JString ''t1'') (Some ''tok'') 5)) = 3
      \<and> pr_status (fst (pollTaskStatus ticks_third_succeeds (JString ''t1'') (Some ''tok'') 5)) = ''completed''"
    by (simp add: tickState_third_succeeds)
  from b have c2: "statusChecks (snd (pollTaskStatus ticks_processing (JString ''t1'') (Some ''tok'') 3)) = 3
      \<and> pr_status (fst (pollTaskStatus ticks_processing (JString ''t1'') (Some ''tok'') 3)) = ''timeout''"
    by (simp add: tickState_processing)
  from a t have "pollFrom ticks_third_succeeds (JString ''t1'') (Some ''tok'') 5 2 =
       emit ([EvStatusCheck (JString ''t1'') (Some ''tok'')] @ delayUnlessLast 2 5)
         (pollFrom ticks_third_succeeds (JString ''t1'') (Some ''tok'') 5 (Suc 2))"
    by simp
  then have c3: "pollFrom ticks_third_succeeds (JString ''t1'') (Some ''tok'') 5 2 =
       emit [EvStatusCheck (JString ''t1'') (Some ''tok''), EvDelay]
         (pollFrom ticks_third_succeeds (JString ''t1'') (Some ''tok'') 5 3)"
    by (simp add: delayUnlessLast_def eval_nat_numeral)
  from c1 c2 c3 t show ?thesis by simp
qed

section \<open>Properties of the stream reader\<close>

lemma lastOr_Nil [simp]: "lastOr d [] = d"
  by (simp add: lastOr_def)



lemma map_filter_app: "List.map_filter f (xs @ ys) = List.map_filter f xs @ List.map_filter f ys"
  by (simp add: List.map_filter_def)







lemmas sample_defs = sample_frame_r1_def sample_frame_r2_def sample_frame_ris_def
  sample_frame_late_def sample_body_num2_def sample_body_nonum_def


text \<open>
  The frames of a stream do not depend on how the reads cut it: they are the frames of the
  complete lines of the whole text (what follows the last newline is never processed).
\<close>

lemma splitNL_nonempty: "splitNL s \<noteq> []"
  by (induction s) (auto split: list.splits)

lemma splitNL_no_newline: "CHR 0x0A \<notin> set s \<Longrightarrow> splitNL s = [s]"
  by (induction s) auto

lemma last_splitNL_no_newline: "CHR 0x0A \<notin> set (last (splitNL s))"
  by (induction s) (auto simp: splitNL_nonempty split: list.splits)

lemma splitNL_append:
  "splitNL (a @ b) = butlast (splitNL a) @ splitNL (last (splitNL a) @ b)"
proof (induction a)
  case Nil
  show ?case by simp
next
  case (Cons c cs)
  show ?case
  proof (cases "c = CHR 0x0A")
    case True
    with Cons show ?thesis by (simp add: splitNL_nonempty)
  next
    case False
    obtain l ls where s: "splitNL cs = l # ls" using splitNL_nonempty [of cs] by (cases "splitNL cs") auto
    show ?thesis
    proof (cases ls)
      case Nil
      with Cons s False show ?thesis by simp
    next
      case (Cons x xs)
      with Cons.IH s False show ?thesis by simp
    qed
  qed
qed

lemma concat_frameBatches:
  "CHR 0x0A \<notin> set buf \<Longrightarrow>
     concat (frameBatches P buf ts) = List.map_filter (frameOf P) (butlast (splitNL (buf @ concat ts)))"
proof (induction ts arbitrary: buf)
  case Nil
  then show ?case by (simp add: splitNL_no_newline map_filter_simps)
next
  case (Cons t ts)
  have "splitNL (buf @ concat (t # ts)) =
          butlast (splitNL (buf @ t)) @ splitNL (last (splitNL (buf @ t)) @ concat ts)"
    using splitNL_append [of "buf @ t" "concat ts"] by simp
  then have "butlast (splitNL (buf @ concat (t # ts))) =
          butlast (splitNL (buf @ t)) @ butlast (splitNL (last (splitNL (buf @ t)) @ concat ts))"
    by (simp add: butlast_append splitNL_nonempty)
  with Cons.IH [OF last_splitNL_no_newline [of "buf @ t"]] show ?case
    by (simp add: map_filter_app)
qed

lemma allFrames_lines:
  "allFrames P ts = List.map_filter (frameOf P) (butlast (splitNL (concat ts)))"
  using concat_frameBatches [of "[]" P ts] by (simp add: allFrames_def)




section \<open>Evaluating the examples\<close>

declare sendMessage.simps [simp del] handleApiError.simps [simp del]

lemmas attempt_defs =
  sm_attempt_def sm_afterChat_def ensureChat_def loadModels_def perform_def validateAndPrepareMessage_def
  chooseModel_def isValidModel_def resolveAuthToken_def settle_def sm_try_def pagePool_getPage_def
  getPage_def tokenTruthy_def storeToken_def sm_request_def ensureToken_def buildPayloadV2_def
  executeApiRequest_def failure_def pagePool_releasePage_def finallyClose_def closeIfNewPage_def
  js_or_def trim_def isWhiteSpace_def Let_def resume_def disturb_def noInterference_def
  defaultArgs_def orNull_def

lemmas handle_defs =
  hasVerificationMarker_def isUnauthorized_def hasRateLimitMarker_def dropAccount_def
  exitProcess_def pagePool_clear_def markFromBody_def genericError_def retryArgs_def

lemmas sample_values =
  sample_config_def sample_state_def sample_args_def sample_env_def sample_envs_def
  sample_page_env_def sample_account_def sample_body_unauthorized_def sample_payload_def

lemmas chat_defs =
  createChatV2_def chatToken_def createChatRequest_def createChatAnswer_def extractAuthToken_def
  getProp_def always_def cleared_def

section \<open>Properties of the task id extraction\<close>

lemma extractTaskId_find:
  "\<not> nullish d \<Longrightarrow>
     extractTaskId d = Inr (case find truthy (taskIdCandidates d) of Some v \<Rightarrow> v | None \<Rightarrow> JNull)"
  by (simp add: extractTaskId_def taskIdCandidates_def getProp_def js_or_def Let_def)

text \<open>
  Claim C2. For a response body \<open>d\<close> (other than \<open>null\<close>, on which reading \<open>d.data\<close>
  throws), \<open>extractTaskId\<close> returns the first candidate that is there, a candidate being
  there when it is truthy, in the order: nested task reference, top-level \<open>id\<close>,
  top-level \<open>task_id\<close>, \<open>response_id\<close>, nested \<open>message_id\<close>; and \<open>null\<close> when none
  is there, in which case \<open>sendMessage\<close> releases the page and returns the error
  \<open>Task ID not found in response\<close>. A body with a nested reference and a top-level id
  yields the nested reference; the body \<open>{"data":{"message_id":"m1"}}\<close> yields \<open>m1\<close>.
\<close>

theorem extractTaskId_precedence:
  "extractTaskId d =
     (if nullish d then Inl TypeError
      else Inr (case find truthy (taskIdCandidates d) of Some v \<Rightarrow> v | None \<Rightarrow> JNull))
   \<and> (\<not> nullish d \<and> find truthy (taskIdCandidates d) = None \<longrightarrow>
        sm_task cfg P env a p d st =
          (Returns (RTaskIdMissing (a_chatId a) d) None, pagePool_releasePage cfg p st)
        \<and> fst (settle ctx a tokenObj (sm_task cfg P env a p d st)) = Done (RTaskIdMissing (a_chatId a) d))
   \<and> extractTaskId sample_task_both = Inr (JString ''wanx-7'')
   \<and> extractTaskId sample_task_m1 = Inr (JString ''m1'')"
proof (intro conjI impI)
  show "extractTaskId d =
     (if nullish d then Inl TypeError
      else Inr (case find truthy (taskIdCandidates d) of Some v \<Rightarrow> v | None \<Rightarrow> JNull))"
    by (simp add: extractTaskId_find) (simp add: extractTaskId_def getProp_def)
next
  assume h: "\<not> nullish d \<and> find truthy (taskIdCandidates d) = None"
  then have e: "extractTaskId d = Inr JNull" by (simp add: extractTaskId_find)
  then show t: "sm_task cfg P env a p d st =
          (Returns (RTaskIdMissing (a_chatId a) d) None, pagePool_releasePage cfg p st)"
    by (simp add: sm_task_def)
  show "fst (settle ctx a tokenObj (sm_task cfg P env a p d st)) = Done (RTaskIdMissing (a_chatId a) d)"
    by (simp add: t settle_def)
next
  show "extractTaskId sample_task_both = Inr (JString ''wanx-7'')"
    by (simp add: extractTaskId_def sample_task_both_def getProp_def opt_field_def opt_elem0_def)
  show "extractTaskId sample_task_m1 = Inr (JString ''m1'')"
    by (simp add: extractTaskId_def sample_task_m1_def getProp_def opt_field_def opt_elem0_def js_or_def)
qed

theorem extractTaskId_precedence_witness:
  "extractTaskId (JObject [(''request_id'', JString ''q9'')]) = Inr JNull
   \<and> sm_task sample_config sample_platform sample_env sample_args 0
        (JObject [(''request_id'', JString ''q9'')]) sample_state =
        (Returns (RTaskIdMissing (JString ''chat-1'') (JObject [(''request_id'', JString ''q9'')])) None,
         sample_state\<lparr>pages := [0]\<rparr>)"
  using extractTaskId_precedence [of "JObject [(''request_id'', JString ''q9'')]"
          sample_config sample_platform sample_env sample_args 0 sample_state]
  by (simp add: taskIdCandidates_def opt_field_def opt_elem0_def sample_args_def
        pagePool_releasePage_def sample_state_def sample_config_def)

text \<open>
  Claim C2 as stated fails on the body \<open>null\<close>: the upstream service answers a video request
  with \<open>null\<close>, none of the five fields is there, and yet the request does not end with the
  error \<open>Task ID not found in response\<close>: reading \<open>data.data\<close> throws, the \<open>catch\<close> block
  of \<open>sendMessage\<close> returns the text of that exception and the page is closed, not given
  back to the pool.
\<close>

theorem extractTaskId_null_counterexample:
  "extractTaskId JNull = Inl TypeError
   \<and> find truthy (taskIdCandidates JNull) = None
   \<and> fst (sendMessage sample_config sample_platform (always sample_env_null)
            (sample_args\<lparr>a_chatType := ''t2v''\<rparr>) sample_state)
       = RError (Text ''TypeError'') (JString ''chat-1'')
   \<and> pages (snd (sendMessage sample_config sample_platform (always sample_env_null)
            (sample_args\<lparr>a_chatType := ''t2v''\<rparr>) sample_state)) = []
   \<and> last (trace (snd (sendMessage sample_config sample_platform (always sample_env_null)
            (sample_args\<lparr>a_chatType := ''t2v''\<rparr>) sample_state))) = EvClosePage 0"
proof -
  have "extractTaskId JNull = Inl TypeError"
    by (simp add: extractTaskId_def getProp_def)
  moreover have "find truthy (taskIdCandidates JNull) = None"
    by (simp add: taskIdCandidates_def opt_field_def opt_elem0_def)
  moreover have "sendMessage sample_config sample_platform (always sample_env_null)
            (sample_args\<lparr>a_chatType := ''t2v''\<rparr>) sample_state
       = (RError (Text ''TypeError'') (JString ''chat-1''),
          \<lparr>authToken = Some ''token-1'', pages = [],
             availableModels = Some [''qwen-max-latest'', ''qwen3-vl-plus''], nextPage = 1,
             trace = [EvSendMessage 0, EvGoto 0,
                      EvChatFetch (JString ''chat-1'') (Some ''token-1'')
                        (sample_payload\<lparr>p_stream := False,
                           p_messages := [(hd (p_messages sample_payload))
                              \<lparr>m_chat_type := ''t2v'',
                                 m_feature_config :=
                                   \<lparr>thinking_enabled = True, output_schema = ''phase'',
                                      research_mode = Some ''normal'', auto_thinking = Some True,
                                      thinking_format = Some ''summary'', auto_search = Some True\<rparr>\<rparr>]\<rparr>),
                      EvClosePage 0]\<rparr>)"
    by (simp add: sendMessage.simps attempt_defs sample_values chat_defs sample_env_null_def
          sm_task_def extractTaskId_def)
  ultimately show ?thesis by simp
qed

section \<open>Properties of the failure handling\<close>

lemma sample_payload_built:
  "buildPayloadV2 (uuids sample_env) (stamps sample_env) (a_message sample_args) (a_model sample_args)
     (a_chatId sample_args) (a_parentId sample_args) (a_files sample_args) (a_systemMessage sample_args)
     (a_tools sample_args) (a_toolChoice sample_args) (a_chatType sample_args) (a_size sample_args)
   = Inr sample_payload"
  by (simp add: buildPayloadV2_def sample_env_def sample_args_def sample_payload_def js_or_def)

lemma executeApiRequest_no_html:
  "executeApiRequest P now up cid pl tok st = (Inr response, st') \<Longrightarrow> r_html response = None"
  by (auto simp: executeApiRequest_def failure_def Let_def
           split: upstream_response.splits if_splits sum.splits)

text \<open>
  Claim C5, as the code has it. The verification test of \<open>handleApiError\<close> reads the field
  \<open>html\<close> of the response, which \<open>executeApiRequest\<close> never sets: for every failure that
  the executor returns the test is false, whatever the body holds, and the failure is
  classified by the remaining tests in order: status 401 or an authorization marker in
  the body, else a rate-limit marker in the body, else the generic error, returned without
  a retry.
\<close>

theorem handleApiError_executor_failures:
  assumes "executeApiRequest P now up cid pl tok st0 = (Inr response, st1)"
  shows "\<not> hasVerificationMarker response
    \<and> handleApiError cfg P envs response tokenObj a rc st =
        (if isUnauthorized response then
           (if hasValidTokens (envs rc) \<and> rc < MAX_RETRY_COUNT cfg
            then sendMessage cfg P envs (retryArgs a rc) (dropAccount tokenObj st)
            else (RExit 1, exitProcess (dropAccount tokenObj st)))
         else if hasRateLimitMarker response then
           (if rc < MAX_RETRY_COUNT cfg
            then sendMessage cfg P envs (retryArgs a rc) (markFromBody P response tokenObj st)
            else (RError AllTokensRateLimited (a_chatId a), markFromBody P response tokenObj st))
         else (genericError response (a_chatId a), st))"
proof -
  from assms have "r_html response = None" by (rule executeApiRequest_no_html)
  then have v: "\<not> hasVerificationMarker response" by (simp add: hasVerificationMarker_def)
  then show ?thesis by (simp add: handleApiError.simps)
qed

lemma sample_verification_flags:
  "\<not> isUnauthorized sample_response_verification"
  "\<not> hasRateLimitMarker sample_response_verification"
  "strIncludes sample_body_verification ''Verification''"
  by (simp_all add: isUnauthorized_def hasRateLimitMarker_def sample_response_verification_def
        failure_def sample_body_verification_def startsWith_def)

text \<open>
  The failing input of claim C5: the upstream service answers 403 with a body that holds
  the verification marker, and the request ends with the generic error.
\<close>

theorem handleApiError_executor_failures_witness:
  "executeApiRequest sample_platform ''1700000000000''
      (RespondsNotOk (JNumber (Fin 403)) ''Forbidden'' sample_body_verification)
      (JString ''chat-1'') sample_payload (Some ''token-1'') sample_state
     = (Inr sample_response_verification,
        sample_state\<lparr>trace := [EvChatFetch (JString ''chat-1'') (Some ''token-1'') sample_payload]\<rparr>)
   \<and> strIncludes sample_body_verification ''Verification''
   \<and> handleApiError sample_config sample_platform sample_envs sample_response_verification
        sample_account sample_args 0 sample_state
     = (RDetails (Some (Text ''Forbidden'')) (Text sample_body_verification) (JString ''chat-1''),
        sample_state)"
proof -
  have e: "executeApiRequest sample_platform ''1700000000000''
      (RespondsNotOk (JNumber (Fin 403)) ''Forbidden'' sample_body_verification)
      (JString ''chat-1'') sample_payload (Some ''token-1'') sample_state
     = (Inr sample_response_verification,
        sample_state\<lparr>trace := [EvChatFetch (JString ''chat-1'') (Some ''token-1'') sample_payload]\<rparr>)"
    by (simp add: executeApiRequest_def tokenTruthy_def perform_def sample_response_verification_def
          sample_state_def)
  from handleApiError_executor_failures [OF e, of sample_config sample_envs sample_account
         sample_args 0 sample_state]
  have "handleApiError sample_config sample_platform sample_envs sample_response_verification
        sample_account sample_args 0 sample_state
     = (genericError sample_response_verification (a_chatId sample_args), sample_state)"
    by (simp add: sample_verification_flags)
  then have "handleApiError sample_config sample_platform sample_envs sample_response_verification
        sample_account sample_args 0 sample_state
     = (RDetails (Some (Text ''Forbidden'')) (Text sample_body_verification) (JString ''chat-1''),
        sample_state)"
    by (simp add: genericError_def sample_response_verification_def failure_def sample_args_def
          sample_body_verification_def)
  with e sample_verification_flags(3) show ?thesis by simp
qed

text \<open>
  What this means for a whole request: no call of \<open>sendMessage\<close> returns the result
  `verification required', and no response without \<open>html\<close> makes \<open>handleApiError\<close> return
  it. The restart of the browser for a manual verification is never reached from a request.
\<close>

lemma plain_sm_task: "plainBody (fst (sm_task cfg P env a p d st))"
  by (auto simp: sm_task_def Let_def split: sum.splits prod.splits)

lemma plain_sm_request: "plainBody (fst (sm_request cfg P env a mc p st))"
proof (cases "ensureToken env a p st")
  case (Inl out)
  then show ?thesis
    by (auto simp: sm_request_def ensureToken_def split: if_splits sum.splits)
next
  case (Inr st1)
  then show ?thesis
    by (auto simp: sm_request_def Let_def plain_sm_task
             split: sum.splits prod.splits option.splits
             dest: executeApiRequest_no_html)
qed

lemma plain_sm_try: "plainBody (fst (sm_try cfg P env a mc ctx st))"
  by (auto simp: sm_try_def plain_sm_request split: sum.splits prod.splits option.splits)

lemma plain_settle: "plainBody (fst out) \<Longrightarrow> plainAttempt (fst (settle ctx a tokenObj out))"
  by (cases out) (auto simp: settle_def split: body_outcome.splits)

lemma plain_sm_afterChat: "plainAttempt (fst (sm_afterChat cfg P env a cid st))"
  by (auto simp: sm_afterChat_def plain_settle plain_sm_try
           split: sum.splits validated.splits prod.splits option.splits)

lemma plain_sm_attempt: "plainAttempt (fst (sm_attempt cfg P env a st))"
  by (auto simp: sm_attempt_def ensureChat_def plain_sm_afterChat
           split: sum.splits prod.splits if_splits chat_result.splits)

lemma sendMessage_never_verification:
  "\<not> isVerificationResult (fst (sendMessage cfg P envs a st))"
  "r_html response = None \<Longrightarrow>
     \<not> isVerificationResult (fst (handleApiError cfg P envs response tokenObj a1 rc st))"
proof (induction cfg P envs a st and cfg P envs response tokenObj a1 rc st
       rule: sendMessage_handleApiError.induct)
  case (1 cfg P envs a st)
  obtain out st1 where att: "sm_attempt cfg P (envs (a_retryCount a)) a st = (out, st1)"
    by (cases "sm_attempt cfg P (envs (a_retryCount a)) a st")
  from plain_sm_attempt [of cfg P "envs (a_retryCount a)" a st] att have p: "plainAttempt out" by simp
  show ?case
  proof (cases out)
    case (Done r)
    with p att show ?thesis by (subst sendMessage.simps) simp
  next
    case (Escalate response tokenObj a1)
    with p have "r_html response = None" by simp
    from "1.IH" [OF att [symmetric] Escalate this] att Escalate show ?thesis
      by (subst sendMessage.simps) simp
  qed
next
  case (2 cfg P envs response tokenObj a rc st)
  from "2.prems" have nv: "\<not> hasVerificationMarker response" by (simp add: hasVerificationMarker_def)
  with "2.IH" show ?case
    by (subst handleApiError.simps) (auto simp: genericError_def)
qed

lemma trace_exitProcess_dropAccount:
  "trace (exitProcess (dropAccount tokenObj st)) =
     trace st @ (if tok_id tokenObj \<noteq> [] then [EvMarkInvalid (tok_id tokenObj)] else [])
       @ map EvClosePage (pages st) @ [EvShutdownBrowser, EvProcessExit 1]"
  by (simp add: exitProcess_def dropAccount_def pagePool_clear_def perform_def)

text \<open>
  Claim C6, as the code has it. After an Unauthorized failure \<open>handleApiError\<close> retries
  only if an account is still usable and \<open>retryCount < MAX_RETRY_COUNT\<close>; otherwise, that
  is when no account is usable or when the retry budget is exhausted although accounts are
  usable, it marks the account invalid, closes the pages of the pool, shuts the browser
  down and ends the process. After a RateLimited failure with the budget exhausted it
  returns the error value `all tokens rate-limited' and does not end the process; a
  generic failure is returned as an error value.
\<close>

theorem handleApiError_exhaustion:
  assumes "\<not> hasVerificationMarker response"
  shows "(isUnauthorized response \<and> hasValidTokens (envs rc) \<and> rc < MAX_RETRY_COUNT cfg \<longrightarrow>
            handleApiError cfg P envs response tokenObj a rc st =
              sendMessage cfg P envs (retryArgs a rc) (dropAccount tokenObj st))
       \<and> (isUnauthorized response \<and> \<not> (hasValidTokens (envs rc) \<and> rc < MAX_RETRY_COUNT cfg) \<longrightarrow>
            handleApiError cfg P envs response tokenObj a rc st =
              (RExit 1, exitProcess (dropAccount tokenObj st))
            \<and> trace (exitProcess (dropAccount tokenObj st)) =
                trace st @ (if tok_id tokenObj \<noteq> [] then [EvMarkInvalid (tok_id tokenObj)] else [])
                  @ map EvClosePage (pages st) @ [EvShutdownBrowser, EvProcessExit 1])
       \<and> (\<not> isUnauthorized response \<and> hasRateLimitMarker response \<and> \<not> rc < MAX_RETRY_COUNT cfg \<longrightarrow>
            handleApiError cfg P envs response tokenObj a rc st =
              (RError AllTokensRateLimited (a_chatId a), markFromBody P response tokenObj st)
            \<and> EvProcessExit 1 \<notin> set (trace (markFromBody P response tokenObj st)) - set (trace st))
       \<and> (\<not> isUnauthorized response \<and> \<not> hasRateLimitMarker response \<longrightarrow>
            handleApiError cfg P envs response tokenObj a rc st = (genericError response (a_chatId a), st))"
  using assms
  by (auto simp: handleApiError.simps trace_exitProcess_dropAccount markFromBody_def Let_def perform_def
           split: option.splits sum.splits)

lemma sample_401_flags:
  "\<not> hasVerificationMarker sample_response_401"
  "isUnauthorized sample_response_401"
  by (simp_all add: handle_defs sample_response_401_def failure_def)

theorem handleApiError_exhaustion_witness:
  "hasValidTokens (sample_envs 3)
   \<and> handleApiError sample_config sample_platform sample_envs sample_response_401 sample_account
        sample_args 3 sample_state
      = (RExit 1,
         sample_state\<lparr>trace := [EvMarkInvalid ''acc-1'', EvShutdownBrowser, EvProcessExit 1]\<rparr>)"
proof -
  from handleApiError_exhaustion [OF sample_401_flags(1), of sample_envs 3 sample_config
      sample_platform sample_account sample_args sample_state]
  have "handleApiError sample_config sample_platform sample_envs sample_response_401 sample_account
        sample_args 3 sample_state = (RExit 1, exitProcess (dropAccount sample_account sample_state))"
    by (simp add: sample_401_flags sample_config_def)
  then show ?thesis
    by (simp add: handle_defs perform_def sample_values)
qed

text \<open>
  Claim C6 as stated fails: the retry budget is exhausted (\<open>retryCount = MAX_RETRY_COUNT = 3\<close>),
  the upstream service answers 401 and accounts are still usable, yet \<open>sendMessage\<close> ends
  the process instead of returning an error value.
\<close>

theorem sendMessage_exit_counterexample:
  "hasValidTokens (sample_envs 3)
   \<and> sendMessage sample_config sample_platform sample_envs (sample_args\<lparr>a_retryCount := 3\<rparr>) sample_state
      = (RExit 1,
         \<lparr>authToken = None, pages = [],
          availableModels = Some [''qwen-max-latest'', ''qwen3-vl-plus''], nextPage = 1,
          trace = [EvSendMessage 3, EvGoto 0,
                   EvChatFetch (JString ''chat-1'') (Some ''token-4'') sample_payload,
                   EvMarkInvalid ''acc-4'', EvClosePage 0, EvShutdownBrowser, EvProcessExit 1]\<rparr>)"
  by (simp add: sendMessage.simps handleApiError.simps attempt_defs handle_defs sample_values
        startsWith_def)

lemma hoursOf_cases:
  "hoursOf P rateInfo =
     (if toNumber P (field rateInfo ''num'') = NaN \<or> toNumber P (field rateInfo ''num'') = Fin 0
      then JNumber (Fin 24) else JNumber (toNumber P (field rateInfo ''num'')))"
  by (simp add: hoursOf_def js_or_def)

text \<open>
  Claim C7, as the code has it. When a failure reaches the rate-limit test (no
  verification marker, not Unauthorized) and its body holds the rate-limit marker,
  \<open>handleApiError\<close> goes on, to the retry or to the error value, from the state that
  \<open>markFromBody\<close> leaves. If the body parses as JSON and the account has an id, that state
  has one more event, the account marked rate-limited for \<open>Number(num) || 24\<close> hours:
  the number in the body, 24 when the body has no \<open>num\<close> or a \<open>num\<close> that is zero or
  not a number, and 2 when \<open>num\<close> is 2. If the body does not parse as JSON, no account is
  marked.
\<close>

theorem handleApiError_rate_limited:
  assumes "\<not> hasVerificationMarker response" and "\<not> isUnauthorized response"
    and "hasRateLimitMarker response" and "r_errorBody response = Some body"
  shows "handleApiError cfg P envs response tokenObj a rc st =
           (if rc < MAX_RETRY_COUNT cfg
            then sendMessage cfg P envs (retryArgs a rc) (markFromBody P response tokenObj st)
            else (RError AllTokensRateLimited (a_chatId a), markFromBody P response tokenObj st))
    \<and> (\<forall>rateInfo. JSON_parse P body = Some rateInfo \<and> \<not> nullish rateInfo \<and> tok_id tokenObj \<noteq> [] \<longrightarrow>
          markFromBody P response tokenObj st =
            st\<lparr>trace := trace st @ [EvMarkRateLimited (tok_id tokenObj) (hoursOf P rateInfo)],
               authToken := None\<rparr>
          \<and> hoursOf P rateInfo =
              (if toNumber P (field rateInfo ''num'') = NaN \<or> toNumber P (field rateInfo ''num'') = Fin 0
               then JNumber (Fin 24) else JNumber (toNumber P (field rateInfo ''num'')))
          \<and> (field rateInfo ''num'' = JNumber (Fin 2) \<longrightarrow> hoursOf P rateInfo = JNumber (Fin 2))
          \<and> (field rateInfo ''num'' = JUndefined \<longrightarrow> hoursOf P rateInfo = JNumber (Fin 24)))
    \<and> (JSON_parse P body = None \<longrightarrow> markFromBody P response tokenObj st = st\<lparr>authToken := None\<rparr>)"
proof (intro conjI allI impI)
  from assms show "handleApiError cfg P envs response tokenObj a rc st =
           (if rc < MAX_RETRY_COUNT cfg
            then sendMessage cfg P envs (retryArgs a rc) (markFromBody P response tokenObj st)
            else (RError AllTokensRateLimited (a_chatId a), markFromBody P response tokenObj st))"
    by (simp add: handleApiError.simps)
next
  fix rateInfo
  assume h: "JSON_parse P body = Some rateInfo \<and> \<not> nullish rateInfo \<and> tok_id tokenObj \<noteq> []"
  with assms(4) show "markFromBody P response tokenObj st =
            st\<lparr>trace := trace st @ [EvMarkRateLimited (tok_id tokenObj) (hoursOf P rateInfo)],
               authToken := None\<rparr>"
    by (simp add: markFromBody_def getProp_def hoursOf_def perform_def)
  show "hoursOf P rateInfo =
              (if toNumber P (field rateInfo ''num'') = NaN \<or> toNumber P (field rateInfo ''num'') = Fin 0
               then JNumber (Fin 24) else JNumber (toNumber P (field rateInfo ''num'')))"
    by (rule hoursOf_cases)
  {
    assume "field rateInfo ''num'' = JNumber (Fin 2)"
    then show "hoursOf P rateInfo = JNumber (Fin 2)" by (simp add: hoursOf_cases)
  }
  {
    assume "field rateInfo ''num'' = JUndefined"
    then show "hoursOf P rateInfo = JNumber (Fin 24)" by (simp add: hoursOf_cases)
  }
next
  assume "JSON_parse P body = None"
  with assms(4) show "markFromBody P response tokenObj st = st\<lparr>authToken := None\<rparr>"
    by (simp add: markFromBody_def)
qed

lemma sample_num2_flags:
  "\<not> hasVerificationMarker sample_response_num2"
  "\<not> isUnauthorized sample_response_num2"
  "hasRateLimitMarker sample_response_num2"
  "r_errorBody sample_response_num2 = Some sample_body_num2"
  by (simp_all add: handle_defs sample_response_num2_def failure_def sample_body_num2_def startsWith_def)

theorem handleApiError_rate_limited_witness:
  "handleApiError sample_config sample_platform sample_envs sample_response_num2 sample_account
     sample_args 3 sample_state
   = (RError AllTokensRateLimited (JString ''chat-1''),
      sample_state\<lparr>trace := [EvMarkRateLimited ''acc-1'' (JNumber (Fin 2))]\<rparr>)"
proof -
  note t = handleApiError_rate_limited [OF sample_num2_flags, of sample_config sample_platform
      sample_envs sample_account sample_args 3 sample_state]
  have p: "JSON_parse sample_platform sample_body_num2 =
      Some (JObject [(''error'', JString ''RateLimited''), (''num'', JNumber (Fin 2))])"
    by (simp add: sample_platform_def sample_parse_def sample_defs)
  from t p have m: "markFromBody sample_platform sample_response_num2 sample_account sample_state =
      sample_state\<lparr>trace := trace sample_state @ [EvMarkRateLimited (tok_id sample_account)
          (hoursOf sample_platform (JObject [(''error'', JString ''RateLimited''), (''num'', JNumber (Fin 2))]))],
        authToken := None\<rparr>"
    by (simp add: sample_account_def)
  from t have h: "hoursOf sample_platform (JObject [(''error'', JString ''RateLimited''), (''num'', JNumber (Fin 2))])
      = JNumber (Fin 2)"
    using p by (simp add: sample_account_def)
  from t m h show ?thesis
    by (simp add: sample_config_def sample_args_def sample_state_def sample_account_def)
qed

text \<open>
  Claim C7 as stated fails: the body holds the rate-limit marker and is not JSON; the
  request ends with `all tokens rate-limited' and the trace is as empty as before: the
  account was not marked.
\<close>

theorem handleApiError_rate_limited_counterexample:
  "hasRateLimitMarker sample_response_plain
   \<and> trace sample_state = []
   \<and> handleApiError sample_config sample_platform sample_envs sample_response_plain sample_account
        sample_args 3 sample_state
      = (RError AllTokensRateLimited (JString ''chat-1''), sample_state)"
  by (simp add: handleApiError.simps handle_defs sample_response_plain_def sample_body_plain_def
        failure_def startsWith_def sample_platform_def sample_parse_def sample_defs sample_values)

section \<open>Properties of the page pool\<close>

lemma disturb_simps [simp]:
  "pages (disturb tb st) = pages st"
  "nextPage (disturb tb st) = nextPage st"
  "trace (disturb tb st) = trace st"
  "availableModels (disturb tb st) = availableModels st"
  by (simp_all add: disturb_def split: option.splits)

lemma disturb_cases [simp]:
  "disturb None st = st"
  "disturb (Some t) st = st\<lparr>authToken := t\<rparr>"
  by (simp_all add: disturb_def)

lemma resume_simps [simp]:
  "nextPage (resume i st) = nextPage st"
  "trace (resume i st) = trace st"
  "availableModels (resume i st) = availableModels st"
  by (simp_all add: resume_def split: option.splits)

lemma resume_noInterference [simp]: "resume noInterference st = st"
  by (simp add: resume_def noInterference_def disturb_def)

lemma pages_storeToken [simp]: "pages (storeToken t st) = pages st"
  and nextPage_storeToken [simp]: "nextPage (storeToken t st) = nextPage st"
  by (simp_all add: storeToken_def perform_def split: option.splits)

lemma pagePool_getPage_pooled:
  "pages st \<noteq> [] \<Longrightarrow>
     pagePool_getPage ctx pe st = (Inr (last (pages st)), st\<lparr>pages := butlast (pages st)\<rparr>)"
  by (simp add: pagePool_getPage_def)

lemma pagePool_getPage_fresh:
  assumes "opensPages ctx" and "pages st = []" and "pagePool_getPage ctx pe st = (r, st')"
  shows "pages st' = [] \<and>
         (case r of Inl e \<Rightarrow> nextPage st \<le> nextPage st'
                  | Inr p \<Rightarrow> p = nextPage st \<and> nextPage st' = Suc (nextPage st))"
  using assms
  by (auto simp: pagePool_getPage_def getPage_def opensPages_def perform_def Let_def
           split: option.splits if_splits sum.splits)

lemma poolStep_inv:
  assumes "opensPages ctx" and "poolInv w"
  shows "poolInv (poolStep cfg ctx w op)"
proof (cases w)
  case (Pair st held)
  show ?thesis
  proof (cases op)
    case (Acquire pe)
    show ?thesis
    proof (cases "pages st = []")
      case True
      obtain r st' where g: "pagePool_getPage ctx pe st = (r, st')"
        by (cases "pagePool_getPage ctx pe st")
      from pagePool_getPage_fresh [OF assms(1) True g] assms(2) Pair True g Acquire
      show ?thesis
        by (cases r) (auto simp: poolInv_def list_all_iff)
    next
      case False
      then have "pages st = butlast (pages st) @ [last (pages st)]" by simp
      then obtain xs x where xs: "pages st = xs @ [x]" by blast
      with assms(2) Pair Acquire show ?thesis
        by (auto simp: poolInv_def pagePool_getPage_def list_all_iff)
    qed
  next
    case (Release p)
    with assms(2) Pair show ?thesis
      by (auto simp: poolInv_def pagePool_releasePage_def perform_def list_all_iff
               dest: notin_set_remove1)
  qed
qed

lemma poolRun_inv:
  assumes "opensPages ctx" and "poolInv w"
  shows "poolInv (poolRun cfg ctx w ops)"
  using assms(2) unfolding poolRun_def
  by (induction ops arbitrary: w) (simp_all add: poolStep_inv [OF assms(1)])

text \<open>
  Claim C9, as the code has it. \<open>getPage\<close> on a pool that is not empty answers the page
  pushed last and takes it from the idle list. \<open>releasePage\<close> below capacity pushes the
  page, and the next \<open>getPage\<close> answers that very page; at capacity it closes the page
  and leaves the idle list as it is. If the browser context opens new pages (it is not
  itself a page), then whatever the requests do, each releasing only a page it holds, no
  page is ever held twice, idle twice, or held and idle at once.
\<close>

theorem pagePool_exclusive:
  assumes "opensPages ctx" and "poolInv w"
  shows "distinct (snd (poolRun cfg ctx w ops))
    \<and> distinct (pages (fst (poolRun cfg ctx w ops)))
    \<and> set (pages (fst (poolRun cfg ctx w ops))) \<inter> set (snd (poolRun cfg ctx w ops)) = {}
    \<and> (\<forall>st pe. pages st \<noteq> [] \<longrightarrow>
          pagePool_getPage ctx pe st = (Inr (last (pages st)), st\<lparr>pages := butlast (pages st)\<rparr>)
          \<and> (distinct (pages st) \<longrightarrow> last (pages st) \<notin> set (butlast (pages st))))
    \<and> (\<forall>st p pe. length (pages st) < PAGE_POOL_SIZE cfg \<longrightarrow>
          pagePool_releasePage cfg p st = st\<lparr>pages := pages st @ [p]\<rparr>
          \<and> pagePool_getPage ctx pe (pagePool_releasePage cfg p st) = (Inr p, st))
    \<and> (\<forall>st p. \<not> length (pages st) < PAGE_POOL_SIZE cfg \<longrightarrow>
          pagePool_releasePage cfg p st = st\<lparr>trace := trace st @ [EvClosePage p]\<rparr>)"
proof (intro conjI allI impI)
  from poolRun_inv [OF assms, of cfg ops]
  have i: "distinct (pages (fst (poolRun cfg ctx w ops)) @ snd (poolRun cfg ctx w ops))"
    by (simp add: poolInv_def)
  from i show "distinct (snd (poolRun cfg ctx w ops))" by simp
  from i show "distinct (pages (fst (poolRun cfg ctx w ops)))" by simp
  from i show "set (pages (fst (poolRun cfg ctx w ops))) \<inter> set (snd (poolRun cfg ctx w ops)) = {}"
    by simp
next
  fix st :: state and pe
  assume ne: "pages st \<noteq> []"
  then show "pagePool_getPage ctx pe st = (Inr (last (pages st)), st\<lparr>pages := butlast (pages st)\<rparr>)"
    by (rule pagePool_getPage_pooled)
  assume d: "distinct (pages st)"
  from ne have "pages st = butlast (pages st) @ [last (pages st)]" by simp
  with d have "distinct (butlast (pages st) @ [last (pages st)])" by simp
  then show "last (pages st) \<notin> set (butlast (pages st))" by simp
next
  fix st :: state and p :: page and pe
  assume lt: "length (pages st) < PAGE_POOL_SIZE cfg"
  then show "pagePool_releasePage cfg p st = st\<lparr>pages := pages st @ [p]\<rparr>"
    by (simp add: pagePool_releasePage_def)
  from lt show "pagePool_getPage ctx pe (pagePool_releasePage cfg p st) = (Inr p, st)"
    by (simp add: pagePool_releasePage_def pagePool_getPage_def)
next
  fix st :: state and p :: page
  assume "\<not> length (pages st) < PAGE_POOL_SIZE cfg"
  then show "pagePool_releasePage cfg p st = st\<lparr>trace := trace st @ [EvClosePage p]\<rparr>"
    by (simp add: pagePool_releasePage_def perform_def)
qed

lemma sample_pool_run:
  "poolRun sample_config (browserContext sample_env) (sample_state, [])
     [Acquire sample_page_env, Acquire sample_page_env, Release 0, Acquire sample_page_env]
   = (sample_state\<lparr>nextPage := 2, trace := [EvGoto 0, EvGoto 1]\<rparr>, [0, 1])"
  by (simp add: poolRun_def pagePool_getPage_def getPage_def pagePool_releasePage_def perform_def
        storeToken_def tokenTruthy_def sample_values)

theorem pagePool_exclusive_witness:
  "opensPages (browserContext sample_env)
   \<and> poolInv (sample_state, [])
   \<and> snd (poolRun sample_config (browserContext sample_env) (sample_state, [])
        [Acquire sample_page_env, Acquire sample_page_env, Release 0, Acquire sample_page_env]) = [0, 1]
   \<and> distinct (snd (poolRun sample_config (browserContext sample_env) (sample_state, [])
        [Acquire sample_page_env, Acquire sample_page_env, Release 0, Acquire sample_page_env]))"
proof -
  have o: "opensPages (browserContext sample_env)"
    by (simp add: opensPages_def sample_env_def)
  have i: "poolInv (sample_state, [])"
    by (simp add: poolInv_def sample_state_def)
  from pagePool_exclusive [OF o i, of sample_config
      "[Acquire sample_page_env, Acquire sample_page_env, Release 0, Acquire sample_page_env]"]
  have "distinct (snd (poolRun sample_config (browserContext sample_env) (sample_state, [])
        [Acquire sample_page_env, Acquire sample_page_env, Release 0, Acquire sample_page_env]))"
    by blast
  with o i show ?thesis by (simp add: sample_pool_run)
qed

text \<open>
  Claim C9 as stated fails when the browser context is itself a page: two requests that
  call \<open>getPage\<close> on an empty pool are both handed that page.
\<close>

theorem pagePool_shared_page_counterexample:
  "snd (poolRun sample_config sample_page_context (sample_state, [])
          [Acquire sample_page_env, Acquire sample_page_env]) = [7, 7]"
  by (simp add: poolRun_def pagePool_getPage_def getPage_def perform_def storeToken_def
        tokenTruthy_def sample_page_context_def sample_values)

section \<open>How the trace grows\<close>

lemma invocations_simps [simp]:
  "invocations [] = []"
  "invocations (e # evs) = invocation e @ invocations evs"
  "invocations (xs @ ys) = invocations xs @ invocations ys"
  by (simp_all add: invocations_def)

lemma orderly_invocations: "list_all (orderly b d) evs \<Longrightarrow> invocations evs = []"
  by (induction evs) (simp_all add: orderly_def)

lemma orderly_proper: "list_all (orderly b d) evs \<Longrightarrow> list_all (proper b d) evs"
  by (induction evs) (simp_all add: orderly_def)

lemma orderly_effects [simp]:
  "orderly b d EvDelay"
  "orderly b d (EvGoto p)"
  "orderly b d (EvReload p)"
  "orderly b d (EvClosePage p)"
  "orderly b d (EvSaveAuthToken s)"
  "orderly b d (EvSetAuthenticationStatus f)"
  "orderly b d (EvMarkInvalid i)"
  "orderly b d (EvMarkRateLimited i h)"
  "orderly b d EvShutdownBrowser"
  "orderly b d (EvInitBrowser f)"
  "orderly b d (EvProcessExit n)"
  by (simp_all add: orderly_def proper_def)

lemma orderly_requests [simp]:
  "orderly b d (EvStatusCheck i t) = (b \<longrightarrow> tokenTruthy t)"
  "orderly b d (EvCreateChatFetch t m) = (b \<longrightarrow> tokenTruthy t)"
  "orderly b d (EvChatFetch c t pl) = (tokenTruthy t \<and> carries d (EvChatFetch c t pl))"
  by (auto simp: orderly_def proper_def)

lemma grows_refl [simp]: "grows Q st st"
  by (simp add: grows_def)

lemma grows_trans: "grows Q st st1 \<Longrightarrow> grows Q st1 st2 \<Longrightarrow> grows Q st st2"
  by (auto simp: grows_def)

lemma grows_perform: "Q e \<Longrightarrow> grows Q st st1 \<Longrightarrow> grows Q st (perform e st1)"
  by (auto simp: grows_def perform_def)

lemma grows_same_trace: "trace st2 = trace st1 \<Longrightarrow> grows Q st st1 \<Longrightarrow> grows Q st st2"
  by (auto simp: grows_def)

lemma grows_append:
  "list_all Q evs \<Longrightarrow> grows Q st st1 \<Longrightarrow> grows Q st (st1\<lparr>trace := trace st1 @ evs\<rparr>)"
  by (auto simp: grows_def)

lemma grows_update [simp]:
  "grows Q st (st1\<lparr>authToken := t\<rparr>) = grows Q st st1"
  "grows Q st (st1\<lparr>pages := ps\<rparr>) = grows Q st st1"
  "grows Q st (st1\<lparr>availableModels := ms\<rparr>) = grows Q st st1"
  "grows Q st (st1\<lparr>nextPage := n\<rparr>) = grows Q st st1"
  by (simp_all add: grows_def)

lemma grows_interference [simp]:
  "grows Q st (disturb tb st1) = grows Q st st1"
  "grows Q st (resume i st1) = grows Q st st1"
  by (simp_all add: grows_def)

lemma resume_keeps_token:
  "keepsToken (tokenBecomes i) \<Longrightarrow> tokenTruthy (authToken st) \<Longrightarrow> tokenTruthy (authToken (resume i st))"
  by (auto simp: resume_def disturb_def keepsToken_def split: option.splits)

lemma trace_storeToken:
  "grows (orderly b d) st st1 \<Longrightarrow> grows (orderly b d) st (storeToken t st1)"
  by (auto simp: storeToken_def intro!: grows_perform split: option.splits)

lemma trace_getPage: "getPage ctx np st = (r, st') \<Longrightarrow> trace st' = trace st"
  by (auto simp: getPage_def split: option.splits if_splits)

lemma grows_pagePool_getPage:
  "pagePool_getPage ctx pe st1 = (r, st') \<Longrightarrow> grows (orderly b d) st st1 \<Longrightarrow> grows (orderly b d) st st'"
  by (auto simp: pagePool_getPage_def Let_def
           split: if_splits prod.splits sum.splits option.splits
           dest!: trace_getPage
           intro!: trace_storeToken grows_perform
           intro: grows_same_trace)

lemma authToken_perform [simp]: "authToken (perform e st) = authToken st"
  by (simp add: perform_def)

lemma authToken_getPage: "getPage ctx np st = (r, st') \<Longrightarrow> authToken st' = authToken st"
  by (auto simp: getPage_def split: option.splits if_splits)

lemma pagePool_getPage_keeps_token:
  assumes "pagePool_getPage ctx pe st = (r, st')" and "tokenTruthy (authToken st)"
    and "keepsToken (meanwhile pe)"
  shows "tokenTruthy (authToken st')"
  using assms
  by (auto simp: pagePool_getPage_def Let_def keepsToken_def
           split: if_splits prod.splits sum.splits option.splits dest!: authToken_getPage)

lemma grows_releasePage:
  "grows (orderly b d) st st1 \<Longrightarrow> grows (orderly b d) st (pagePool_releasePage cfg p st1)"
  by (auto simp: pagePool_releasePage_def intro!: grows_perform)

lemma authToken_releasePage [simp]: "authToken (pagePool_releasePage cfg p st) = authToken st"
  by (simp add: pagePool_releasePage_def)

lemma grows_closeIfNewPage:
  "grows (orderly b d) st st1 \<Longrightarrow> grows (orderly b d) st (closeIfNewPage ctx p st1)"
  by (auto simp: closeIfNewPage_def intro!: grows_perform split: option.splits)

lemma grows_finallyClose:
  "grows (orderly b d) st st1 \<Longrightarrow> grows (orderly b d) st (finallyClose ctx pg st1)"
  by (auto simp: finallyClose_def intro!: grows_closeIfNewPage split: option.splits)

lemma grows_extractAuthToken:
  "extractAuthToken ctx force pe st1 = (t, st') \<Longrightarrow> grows (orderly b d) st st1
     \<Longrightarrow> grows (orderly b d) st st'"
  by (auto simp: extractAuthToken_def Let_def
           split: if_splits prod.splits sum.splits option.splits
           dest!: trace_getPage
           intro!: trace_storeToken grows_closeIfNewPage grows_perform
           intro: grows_same_trace)

lemma grows_resolveAuthToken:
  "resolveAuthToken ctx env st1 = (t, st') \<Longrightarrow> grows (orderly b d) st st1
     \<Longrightarrow> grows (orderly b d) st st'"
  by (auto simp: resolveAuthToken_def Let_def
           split: if_splits prod.splits sum.splits option.splits
           dest!: grows_extractAuthToken [where st = st and b = b and d = d])

lemma grows_loadModels: "grows (orderly b d) st st1 \<Longrightarrow> grows (orderly b d) st (loadModels cfg st1)"
  by (auto simp: loadModels_def split: option.splits)

lemma grows_chooseModel:
  "chooseModel cfg m st1 = (m', st') \<Longrightarrow> grows (orderly b d) st st1 \<Longrightarrow> grows (orderly b d) st st'"
  by (auto simp: chooseModel_def isValidModel_def Let_def intro!: grows_loadModels
           split: if_splits prod.splits option.splits)

lemma pollFrom_events:
  "set (snd (pollFrom ticks i t m a)) \<subseteq> {EvStatusCheck i t, EvDelay}"
proof (induction "Suc m - a" arbitrary: a)
  case 0
  then show ?case by (subst pollFrom.simps) simp
next
  case (Suc n)
  then have n: "n = Suc m - Suc a" by simp
  from Suc.hyps(1) [OF n] show ?case
    by (subst pollFrom.simps)
       (auto simp: emit_def delayUnlessLast_def split: tick.splits sum.splits if_splits)
qed

lemma pollTaskStatus_orderly:
  "pollTaskStatus ticks i t m = (r, evs) \<Longrightarrow> b \<longrightarrow> tokenTruthy t \<Longrightarrow> list_all (orderly b d) evs"
  using pollFrom_events [of ticks i t m 1]
  by (auto simp: pollTaskStatus_def list_all_iff)

lemma grows_chatToken:
  "grows (orderly b d) st st1 \<Longrightarrow> grows (orderly b d) st (chatToken env ctx st1)"
proof -
  assume g: "grows (orderly b d) st st1"
  let ?s0 = "resume (others env AfterChatAccount) st1"
  let ?s1 = "case chat_availableToken env of
               None \<Rightarrow> ?s0
             | Some tokenObj \<Rightarrow>
                 if tok_token tokenObj \<noteq> [] then ?s0\<lparr>authToken := Some (tok_token tokenObj)\<rparr>
                 else ?s0"
  from g have g1: "grows (orderly b d) st ?s1" by (simp split: option.splits)
  show ?thesis
  proof (cases "tokenTruthy (authToken ?s1)")
    case True
    with g1 show ?thesis by (simp add: chatToken_def Let_def)
  next
    case False
    obtain t st' where e: "extractAuthToken ctx False (chat_extractPage env) ?s1 = (t, st')"
      by (cases "extractAuthToken ctx False (chat_extractPage env) ?s1")
    from grows_extractAuthToken [OF e g1] have "grows (orderly b d) st st'" .
    with False e show ?thesis by (simp add: chatToken_def Let_def)
  qed
qed

lemma grows_createChatRequest:
  assumes "createChatRequest cfg m env ctx st1 = (r, st')" and "grows (orderly b d) st st1"
    and "b \<longrightarrow> tokenTruthy (authToken st1)" and "b \<longrightarrow> tokenKept env"
  shows "grows (orderly b d) st st'"
proof -
  obtain r2 st2 where g: "pagePool_getPage ctx (chat_poolPage env) st1 = (r2, st2)"
    by (cases "pagePool_getPage ctx (chat_poolPage env) st1")
  from grows_pagePool_getPage [OF g assms(2)] have g2: "grows (orderly b d) st st2" .
  let ?s3 = "resume (others env AfterChatPage) st2"
  from g2 have g3: "grows (orderly b d) st ?s3" by simp
  have "b \<longrightarrow> tokenTruthy (authToken ?s3)"
    using pagePool_getPage_keeps_token [OF g] assms(3,4)
    by (auto simp: tokenKept_def intro!: resume_keeps_token)
  then have q: "orderly b d (EvCreateChatFetch (authToken ?s3) m)" by simp
  from assms(1) g g3 show ?thesis
    by (auto simp: createChatRequest_def Let_def
             split: sum.splits create_response.splits
             intro!: grows_releasePage grows_finallyClose
                     grows_perform [where Q="orderly b d", OF q])
qed

lemma grows_createChatV2:
  assumes "createChatV2 cfg m env st1 = (r, st')" and "grows (orderly b d) st st1"
    and "b \<longrightarrow> tokenKept env"
  shows "grows (orderly b d) st st'"
  using assms
  by (auto simp: createChatV2_def Let_def split: option.splits if_splits
           intro: grows_chatToken
           dest!: grows_createChatRequest [where st = st and b = b and d = d])

lemma executeApiRequest_facts:
  assumes "executeApiRequest P now up cid pl tok st1 = (r, st')"
  shows "grows (orderly b d) st st1 \<Longrightarrow> d = None \<or> d = Some (p_model pl) \<Longrightarrow> grows (orderly b d) st st'"
    and "authToken st' = authToken st1"
    and "pages st' = pages st1"
    and "\<And>response. r = Inr response \<Longrightarrow> r_success response \<Longrightarrow> tokenTruthy tok"
  using assms
  by (auto simp: executeApiRequest_def Let_def failure_def perform_def grows_def
           split: upstream_response.splits if_splits sum.splits)

lemma grows_sm_task:
  assumes "sm_task cfg P env a p dat st1 = (out, st')" and "grows (orderly b d) st st1"
    and "b \<longrightarrow> tokenTruthy (authToken st1)"
  shows "grows (orderly b d) st st'"
  using assms(1,2)
  by (auto simp: sm_task_def Let_def
           split: sum.splits if_splits prod.splits
           intro!: grows_releasePage grows_append
           intro: pollTaskStatus_orderly [OF _ assms(3)])

lemma ensureToken_facts:
  assumes "grows (orderly b d) st st1"
  shows "ensureToken env a p st1 = Inl (out, st') \<Longrightarrow> grows (orderly b d) st st'"
    and "ensureToken env a p st1 = Inr st' \<Longrightarrow> grows (orderly b d) st st' \<and> tokenTruthy (authToken st')"
  using assms
  by (auto simp: ensureToken_def storeToken_def tokenTruthy_def
           split: if_splits sum.splits option.splits
           intro!: grows_perform)

lemma buildPayloadV2_model:
  "buildPayloadV2 ids sts mc m cid pid fs sm ts tc ct sz = Inr pl \<Longrightarrow> p_model pl = m"
  by (auto simp: buildPayloadV2_def Let_def split: if_splits)

lemma grows_sm_request:
  assumes "sm_request cfg P env a mc p st1 = (out, st')" and "grows (orderly b d) st st1"
    and "b \<longrightarrow> tokenKept env" and "d = None \<or> d = Some (a_model a)"
  shows "grows (orderly b d) st st'"
proof (cases "ensureToken env a p st1")
  case (Inl o1)
  with assms ensureToken_facts(1) [OF assms(2), of env a p "fst o1" "snd o1"] show ?thesis
    by (simp add: sm_request_def)
next
  case (Inr st2)
  from ensureToken_facts(2) [OF assms(2) Inr]
  have g2: "grows (orderly b d) st st2" and t2: "tokenTruthy (authToken st2)" by simp_all
  show ?thesis
  proof (cases "buildPayloadV2 (uuids env) (stamps env) mc (a_model a) (a_chatId a) (a_parentId a)
                  (a_files a) (a_systemMessage a) (a_tools a) (a_toolChoice a) (a_chatType a) (a_size a)")
    case (Inl e)
    with assms Inr g2 show ?thesis by (simp add: sm_request_def)
  next
    case pl: (Inr pl)
    from buildPayloadV2_model [OF pl] assms(4) have dm: "d = None \<or> d = Some (p_model pl)" by simp
    obtain r3 st3 where e: "executeApiRequest P (clock env) (upstream env) (a_chatId a) pl (authToken st2) st2 = (r3, st3)"
      by (cases "executeApiRequest P (clock env) (upstream env) (a_chatId a) pl (authToken st2) st2")
    note f = executeApiRequest_facts [OF e]
    let ?s4 = "resume (others env AfterFetch) st3"
    from f(1) [OF g2 dm] have g4: "grows (orderly b d) st ?s4" by simp
    from f(2) t2 have "tokenTruthy (authToken st3)" by simp
    with assms(3) have t4: "b \<longrightarrow> tokenTruthy (authToken ?s4)"
      by (auto simp: tokenKept_def intro!: resume_keeps_token)
    from f(1) [OF g2 dm] have g3: "grows (orderly b d) st st3" .
    from assms(1) Inr pl e g3 g4 show ?thesis
      by (auto simp: sm_request_def Let_def
               split: sum.splits if_splits option.splits
               intro!: grows_releasePage
               dest: grows_sm_task [OF _ g4 t4])
  qed
qed

lemma grows_sm_try:
  assumes "sm_try cfg P env a mc ctx st1 = (out, st')" and "grows (orderly b d) st st1"
    and "b \<longrightarrow> tokenKept env" and "d = None \<or> d = Some (a_model a)"
  shows "grows (orderly b d) st st'"
proof -
  let ?s0 = "resume (others env AfterResolve) st1"
  obtain r2 st2 where g: "pagePool_getPage ctx (poolPage env) ?s0 = (r2, st2)"
    by (cases "pagePool_getPage ctx (poolPage env) ?s0")
  from assms(2) have "grows (orderly b d) st ?s0" by simp
  from grows_pagePool_getPage [OF g this] have g2: "grows (orderly b d) st st2" .
  have r: "\<And>s o1 s'. sm_request cfg P env a mc p s = (o1, s') \<Longrightarrow> grows (orderly b d) st s
             \<Longrightarrow> grows (orderly b d) st s'" for p
    by (rule grows_sm_request [OF _ _ assms(3,4)])
  from assms(1) g g2 show ?thesis
    by (auto simp: sm_try_def
             split: prod.splits sum.splits if_splits option.splits
             intro!: grows_perform
             dest!: r)
qed

lemma grows_settle:
  "settle ctx a tokenObj (out, st1) = (r, st') \<Longrightarrow> grows (orderly b d) st st1
     \<Longrightarrow> grows (orderly b d) st st'"
  by (auto simp: settle_def split: body_outcome.splits intro!: grows_finallyClose)

lemma grows_ensureChat:
  assumes "grows (orderly b d) st st1" and "b \<longrightarrow> tokenKept env"
  shows "ensureChat cfg env a st1 = Inl (out, st') \<Longrightarrow> grows (orderly b d) st st'"
    and "ensureChat cfg env a st1 = Inr (cid, st') \<Longrightarrow> grows (orderly b d) st st'"
  using assms
  by (auto simp: ensureChat_def split: if_splits prod.splits chat_result.splits
           dest: grows_createChatV2 [where st = st and b = b and d = d])

lemma grows_settle_try:
  assumes "settle ctx a tokenObj (sm_try cfg P env a1 mc ctx1 st1) = (r, st')"
    and "grows (orderly b d) st st1"
    and "b \<longrightarrow> tokenKept env" and "d = None \<or> d = Some (a_model a1)"
  shows "grows (orderly b d) st st'"
proof -
  obtain out st2 where t: "sm_try cfg P env a1 mc ctx1 st1 = (out, st2)"
    by (cases "sm_try cfg P env a1 mc ctx1 st1")
  from grows_sm_try [OF t assms(2,3,4)] have "grows (orderly b d) st st2" .
  with assms(1) t show ?thesis by (auto dest: grows_settle)
qed

lemma grows_sm_afterChat:
  assumes "sm_afterChat cfg P env a cid st1 = (out, st')" and "grows (orderly b d) st st1"
    and "b \<longrightarrow> tokenKept env" and "d = None \<or> d = Some (fst (chooseModel cfg (a_model a) st1))"
  shows "grows (orderly b d) st st'"
proof (cases "validateAndPrepareMessage (a_message a)")
  case (Inl e)
  with assms(1,2) show ?thesis by (simp add: sm_afterChat_def)
next
  case (Inr v)
  show ?thesis
  proof (cases v)
    case (VError e)
    with Inr assms(1,2) show ?thesis by (simp add: sm_afterChat_def)
  next
    case (VContent mc)
    obtain m st2 where c: "chooseModel cfg (a_model a) st1 = (m, st2)"
      by (cases "chooseModel cfg (a_model a) st1")
    from grows_chooseModel [OF c assms(2)] have g2: "grows (orderly b d) st st2" .
    from c assms(4) have dm: "d = None \<or> d = Some m" by simp
    show ?thesis
    proof (cases "browserContext env")
      case None
      with Inr VContent c g2 assms(1) show ?thesis by (simp add: sm_afterChat_def)
    next
      case (Some bc)
      obtain t st3 where ra: "resolveAuthToken (Some bc) env st2 = (t, st3)"
        by (cases "resolveAuthToken (Some bc) env st2")
      from grows_resolveAuthToken [OF ra g2] have g3: "grows (orderly b d) st st3" .
      show ?thesis
      proof (cases t)
        case None
        with Inr VContent c Some ra g3 assms(1) show ?thesis by (simp add: sm_afterChat_def)
      next
        case tok: (Some tokenObj)
        from Inr VContent c Some ra tok assms(1)
        have s: "settle (Some bc) (a\<lparr>a_model := m, a_chatId := cid\<rparr>) tokenObj
                   (sm_try cfg P env (a\<lparr>a_model := m, a_chatId := cid\<rparr>) mc (Some bc) st3) = (out, st')"
          by (simp add: sm_afterChat_def)
        from dm have "d = None \<or> d = Some (a_model (a\<lparr>a_model := m, a_chatId := cid\<rparr>))" by simp
        from grows_settle_try [OF s g3 assms(3) this] show ?thesis .
      qed
    qed
  qed
qed

text \<open>The model that \<open>sendMessage\<close> goes on with (lines 494 to 499).\<close>

lemma knownModels_loadModels [simp]: "knownModels cfg (loadModels cfg st) = knownModels cfg st"
  by (simp add: knownModels_def loadModels_def split: option.splits)

lemma knownModels_perform [simp]: "knownModels cfg (perform e st) = knownModels cfg st"
  by (simp add: knownModels_def perform_def)

lemma fst_chooseModel: "fst (chooseModel cfg m st) = effectiveModel cfg st m"
  by (auto simp: chooseModel_def isValidModel_def loadModels_def knownModels_def effectiveModel_def
           Let_def split: option.splits)

lemma effectiveModel_default [simp]: "effectiveModel cfg st (DEFAULT_MODEL cfg) = DEFAULT_MODEL cfg"
  by (simp add: effectiveModel_def)

lemma effectiveModel_entry [simp]:
  "effectiveModel cfg (loadModels cfg st) m = effectiveModel cfg st m"
  "effectiveModel cfg (perform e st) m = effectiveModel cfg st m"
  by (simp_all add: effectiveModel_def)

lemma defaultArgs_simps [simp]:
  "a_retryCount (defaultArgs a) = a_retryCount a"
  "a_model (defaultArgs a) = a_model a"
  "a_message (defaultArgs a) = a_message a"
  "a_chatType (defaultArgs a) = a_chatType a"
  "a_waitForCompletion (defaultArgs a) = a_waitForCompletion a"
  "a_chatId (defaultArgs a) = orNull (a_chatId a)"
  by (simp_all add: defaultArgs_def)

lemma truthy_orNull [simp]: "truthy (orNull v) = truthy v"
  by (simp add: orNull_def)

lemma orNull_truthy: "truthy v \<Longrightarrow> orNull v = v"
  by (auto simp: orNull_def)

lemma grows_sm_attempt:
  assumes "sm_attempt cfg P env a st = (out, st')" and "b \<longrightarrow> tokenKept env"
    and "d \<noteq> None \<longrightarrow> truthy (a_chatId a) \<and> d = Some (effectiveModel cfg st (a_model a))"
  shows "grows (orderly b d) (perform (EvSendMessage (a_retryCount a)) st) st'"
proof -
  let ?s0 = "perform (EvSendMessage (a_retryCount a)) st"
  let ?a = "defaultArgs a"
  have g0: "grows (orderly b d) ?s0 (loadModels cfg ?s0)" by (simp add: grows_loadModels)
  show ?thesis
  proof (cases "ensureChat cfg env ?a (loadModels cfg ?s0)")
    case (Inl o1)
    with assms(1) grows_ensureChat(1) [OF g0 assms(2), of cfg ?a "fst o1" "snd o1"] show ?thesis
      by (simp add: sm_attempt_def)
  next
    case (Inr c1)
    obtain cid st1 where c1: "c1 = (cid, st1)" by (cases c1)
    from grows_ensureChat(2) [OF g0 assms(2)] Inr c1 have g1: "grows (orderly b d) ?s0 st1" by simp
    from assms(1) Inr c1 have s: "sm_afterChat cfg P env ?a cid st1 = (out, st')"
      by (simp add: sm_attempt_def)
    have "d = None \<or> d = Some (fst (chooseModel cfg (a_model ?a) st1))"
    proof (cases "d = None")
      case True
      then show ?thesis by simp
    next
      case False
      with assms(3) have t: "truthy (a_chatId a)" and m: "d = Some (effectiveModel cfg st (a_model a))"
        by simp_all
      from t Inr c1 have s1: "st1 = loadModels cfg ?s0" by (simp add: ensureChat_def)
      have "fst (chooseModel cfg (a_model ?a) st1) = effectiveModel cfg st (a_model a)"
        unfolding s1 by (simp add: fst_chooseModel)
      with m show ?thesis by simp
    qed
    from grows_sm_afterChat [OF s g1 assms(2) this] show ?thesis .
  qed
qed

lemma sm_attempt_trace:
  assumes "sm_attempt cfg P env a st = (out, st')" and "b \<longrightarrow> tokenKept env"
    and "d \<noteq> None \<longrightarrow> truthy (a_chatId a) \<and> d = Some (effectiveModel cfg st (a_model a))"
  shows "\<exists>evs. trace st' = trace st @ EvSendMessage (a_retryCount a) # evs \<and> list_all (orderly b d) evs"
  using grows_sm_attempt [OF assms] by (auto simp: grows_def perform_def)

text \<open>What \<open>handleApiError\<close> is called with, when the chat id was given.\<close>

lemma settle_escalate:
  "settle ctx a tokenObj out = (Escalate response t a1, st') \<Longrightarrow> a1 = a"
  by (cases out) (auto simp: settle_def split: body_outcome.splits)

lemma sm_afterChat_escalate:
  assumes "sm_afterChat cfg P env a cid st = (Escalate response tokenObj a1, st')"
  shows "a_model a1 = fst (chooseModel cfg (a_model a) st) \<and> a_chatId a1 = cid"
  using assms
  by (auto simp: sm_afterChat_def
           split: sum.splits validated.splits prod.splits option.splits
           dest!: settle_escalate)

lemma sm_attempt_escalate:
  assumes "sm_attempt cfg P env a st = (Escalate response tokenObj a1, st')" and "truthy (a_chatId a)"
  shows "a_model a1 = effectiveModel cfg st (a_model a) \<and> a_chatId a1 = a_chatId a"
proof -
  let ?s0 = "loadModels cfg (perform (EvSendMessage (a_retryCount a)) st)"
  from assms(2) have e: "ensureChat cfg env (defaultArgs a) ?s0 = Inr (a_chatId a, ?s0)"
    by (simp add: ensureChat_def orNull_truthy)
  with assms(1) have "sm_afterChat cfg P env (defaultArgs a) (a_chatId a) ?s0
      = (Escalate response tokenObj a1, st')"
    by (simp add: sm_attempt_def)
  from sm_afterChat_escalate [OF this] show ?thesis by (simp add: fst_chooseModel)
qed

lemma runsFrom_orderly: "grows (orderly b d) st st' \<Longrightarrow> runsFrom b d k 0 st st'"
  by (auto simp: runsFrom_def grows_def orderly_invocations orderly_proper)

lemma runsFrom_pre:
  "grows (orderly b d) st st1 \<Longrightarrow> runsFrom b d k n st1 st2 \<Longrightarrow> runsFrom b d k n st st2"
  by (auto simp: runsFrom_def grows_def orderly_invocations orderly_proper)

lemma runsFrom_step:
  assumes "trace st1 = trace st @ EvSendMessage k # evs" and "list_all (orderly b d) evs"
    and "runsFrom b d (Suc k) n st1 st2"
  shows "runsFrom b d k (Suc n) st st2"
  using assms
  by (auto simp: runsFrom_def orderly_invocations orderly_proper upt_conv_Cons proper_def)

lemma grows_dropAccount: "grows (orderly b d) st (dropAccount tokenObj st)"
  by (auto simp: dropAccount_def intro!: grows_perform)

lemma grows_pagePool_clear:
  "grows (orderly b d) st st1 \<Longrightarrow> grows (orderly b d) st (pagePool_clear st1)"
  by (auto simp: pagePool_clear_def grows_def list_all_iff)

lemma grows_exitProcess: "grows (orderly b d) st st1 \<Longrightarrow> grows (orderly b d) st (exitProcess st1)"
  by (auto simp: exitProcess_def intro!: grows_perform grows_pagePool_clear)

lemma grows_markFromBody: "grows (orderly b d) st (markFromBody P response tokenObj st)"
  by (auto simp: markFromBody_def Let_def intro!: grows_perform
           split: option.splits sum.splits)

lemma grows_restartForVerification: "grows (orderly b d) st (restartForVerification st)"
  by (auto simp: restartForVerification_def intro!: grows_perform grows_pagePool_clear)

lemma effectiveModel_handled [simp]:
  "effectiveModel cfg (dropAccount tokenObj st) m = effectiveModel cfg st m"
  "effectiveModel cfg (markFromBody P response tokenObj st) m = effectiveModel cfg st m"
  by (auto simp: effectiveModel_def knownModels_def dropAccount_def markFromBody_def perform_def Let_def
           split: option.splits sum.splits)

lemma sendMessage_handleApiError_runs:
  "b \<longrightarrow> (\<forall>k. tokenKept (envs k)) \<Longrightarrow>
   d \<noteq> None \<longrightarrow> truthy (a_chatId a) \<and> d = Some (DEFAULT_MODEL cfg)
                 \<and> effectiveModel cfg st (a_model a) = DEFAULT_MODEL cfg \<Longrightarrow>
   \<exists>n. runsFrom b d (a_retryCount a) n st (snd (sendMessage cfg P envs a st))
        \<and> 1 \<le> n \<and> (n = 1 \<or> a_retryCount a + n \<le> Suc (MAX_RETRY_COUNT cfg))"
  "b \<longrightarrow> (\<forall>k. tokenKept (envs k)) \<Longrightarrow>
   d \<noteq> None \<longrightarrow> truthy (a_chatId a1) \<and> d = Some (DEFAULT_MODEL cfg)
                 \<and> a_model a1 = DEFAULT_MODEL cfg \<Longrightarrow>
   \<exists>n. runsFrom b d (Suc rc) n st (snd (handleApiError cfg P envs response tokenObj a1 rc st))
        \<and> (n = 0 \<or> Suc rc + n \<le> Suc (MAX_RETRY_COUNT cfg))"
proof (induction cfg P envs a st and cfg P envs response tokenObj a1 rc st
       rule: sendMessage_handleApiError.induct)
  case (1 cfg P envs a st)
  obtain out st1 where att: "sm_attempt cfg P (envs (a_retryCount a)) a st = (out, st1)"
    by (cases "sm_attempt cfg P (envs (a_retryCount a)) a st")
  from "1.prems"(1) have k: "b \<longrightarrow> tokenKept (envs (a_retryCount a))" by simp
  from "1.prems"(2) have dm: "d \<noteq> None \<longrightarrow> truthy (a_chatId a) \<and> d = Some (effectiveModel cfg st (a_model a))"
    by simp
  from sm_attempt_trace [OF att k dm] obtain evs
    where tr: "trace st1 = trace st @ EvSendMessage (a_retryCount a) # evs"
      and q: "list_all (orderly b d) evs"
    by blast
  show ?case
  proof (cases out)
    case (Done r)
    have "runsFrom b d (Suc (a_retryCount a)) 0 st1 st1" by (simp add: runsFrom_orderly)
    from runsFrom_step [OF tr q this] att Done show ?thesis
      by (subst sendMessage.simps) auto
  next
    case (Escalate response tokenObj a1)
    have "d \<noteq> None \<longrightarrow> truthy (a_chatId a1) \<and> d = Some (DEFAULT_MODEL cfg)
            \<and> a_model a1 = DEFAULT_MODEL cfg"
    proof
      assume "d \<noteq> None"
      with "1.prems"(2) have t: "truthy (a_chatId a)" and dd: "d = Some (DEFAULT_MODEL cfg)"
        and e: "effectiveModel cfg st (a_model a) = DEFAULT_MODEL cfg" by simp_all
      from sm_attempt_escalate [OF att [unfolded Escalate] t] t dd e
      show "truthy (a_chatId a1) \<and> d = Some (DEFAULT_MODEL cfg) \<and> a_model a1 = DEFAULT_MODEL cfg"
        by simp
    qed
    from "1.IH" [OF att [symmetric] Escalate "1.prems"(1) this] obtain n
      where r: "runsFrom b d (Suc (a_retryCount a)) n st1
                  (snd (handleApiError cfg P envs response tokenObj a1 (a_retryCount a) st1))"
        and bd: "n = 0 \<or> Suc (a_retryCount a) + n \<le> Suc (MAX_RETRY_COUNT cfg)"
      by blast
    from runsFrom_step [OF tr q r] bd att Escalate show ?thesis
      by (subst sendMessage.simps) auto
  qed
next
  case (2 cfg P envs response tokenObj a rc st)
  from "2.prems"(2) have dr: "\<And>s. (\<And>m. effectiveModel cfg s m = effectiveModel cfg st m) \<Longrightarrow>
      d \<noteq> None \<longrightarrow> truthy (a_chatId (retryArgs a rc)) \<and> d = Some (DEFAULT_MODEL cfg)
        \<and> effectiveModel cfg s (a_model (retryArgs a rc)) = DEFAULT_MODEL cfg"
    by (auto simp: retryArgs_def)
  show ?case
  proof (cases "hasVerificationMarker response")
    case True
    then show ?thesis
      by (subst handleApiError.simps)
         (auto intro!: exI [of _ 0] runsFrom_orderly grows_restartForVerification)
  next
    case nv: False
    show ?thesis
    proof (cases "isUnauthorized response")
      case True
      show ?thesis
      proof (cases "hasValidTokens (envs rc) \<and> rc < MAX_RETRY_COUNT cfg")
        case retry: True
        have "d \<noteq> None \<longrightarrow> truthy (a_chatId (retryArgs a rc)) \<and> d = Some (DEFAULT_MODEL cfg)
                \<and> effectiveModel cfg (dropAccount tokenObj st) (a_model (retryArgs a rc)) = DEFAULT_MODEL cfg"
          by (rule dr) simp
        from "2.IH"(1) [OF nv True retry "2.prems"(1) this] obtain n
          where r: "runsFrom b d (Suc rc) n (dropAccount tokenObj st)
                      (snd (sendMessage cfg P envs (retryArgs a rc) (dropAccount tokenObj st)))"
            and bd: "1 \<le> n" "n = 1 \<or> Suc rc + n \<le> Suc (MAX_RETRY_COUNT cfg)"
          by (auto simp: retryArgs_def)
        from runsFrom_pre [OF grows_dropAccount r] bd nv True retry show ?thesis
          by (subst handleApiError.simps) (auto intro!: exI [of _ n])
      next
        case False
        with nv True show ?thesis
          by (subst handleApiError.simps)
             (auto intro!: exI [of _ 0] runsFrom_orderly grows_exitProcess grows_dropAccount)
      qed
    next
      case nu: False
      show ?thesis
      proof (cases "hasRateLimitMarker response")
        case True
        show ?thesis
        proof (cases "rc < MAX_RETRY_COUNT cfg")
          case retry: True
          have "d \<noteq> None \<longrightarrow> truthy (a_chatId (retryArgs a rc)) \<and> d = Some (DEFAULT_MODEL cfg)
                  \<and> effectiveModel cfg (markFromBody P response tokenObj st) (a_model (retryArgs a rc))
                      = DEFAULT_MODEL cfg"
            by (rule dr) simp
          from "2.IH"(2) [OF nv nu True retry "2.prems"(1) this] obtain n
            where r: "runsFrom b d (Suc rc) n (markFromBody P response tokenObj st)
                        (snd (sendMessage cfg P envs (retryArgs a rc) (markFromBody P response tokenObj st)))"
              and bd: "1 \<le> n" "n = 1 \<or> Suc rc + n \<le> Suc (MAX_RETRY_COUNT cfg)"
            by (auto simp: retryArgs_def)
          from runsFrom_pre [OF grows_markFromBody r] bd nv nu True retry show ?thesis
            by (subst handleApiError.simps) (auto intro!: exI [of _ n])
        next
          case False
          with nv nu True show ?thesis
            by (subst handleApiError.simps)
               (auto intro!: exI [of _ 0] runsFrom_orderly grows_markFromBody)
        qed
      next
        case False
        with nv nu show ?thesis
          by (subst handleApiError.simps) (auto intro!: exI [of _ 0] runsFrom_orderly)
      qed
    qed
  qed
qed

section \<open>Properties of the retry\<close>

text \<open>
  Claim C4. \<open>sendMessage\<close> and \<open>handleApiError\<close> are total: their mutual recursion is
  well-founded, the measure being the distance of \<open>retryCount\<close> from
  \<open>MAX_RETRY_COUNT\<close>. Whatever the failures are, the invocations of \<open>sendMessage\<close> that
  one call causes, itself included, have the retry counts \<open>retryCount\<close>, \<open>retryCount + 1\<close>,
  ... in this order; there are \<open>n\<close> of them with \<open>1 \<le> n \<le> MAX_RETRY_COUNT + 1\<close>, and
  beyond the first the retry counts do not exceed \<open>MAX_RETRY_COUNT\<close>.
\<close>

theorem sendMessage_attempts_bounded:
  "\<exists>n. invocations (trace (snd (sendMessage cfg P envs a st))) =
          invocations (trace st) @ [a_retryCount a ..< a_retryCount a + n]
       \<and> 1 \<le> n \<and> n \<le> Suc (MAX_RETRY_COUNT cfg)
       \<and> (n = 1 \<or> a_retryCount a + n \<le> Suc (MAX_RETRY_COUNT cfg))"
proof -
  from sendMessage_handleApiError_runs(1) [where b = False and d = None and a = a and st = st
         and cfg = cfg and P = P and envs = envs]
  obtain n
    where r: "runsFrom False None (a_retryCount a) n st (snd (sendMessage cfg P envs a st))"
      and b: "1 \<le> n" "n = 1 \<or> a_retryCount a + n \<le> Suc (MAX_RETRY_COUNT cfg)"
    by auto
  from r have "invocations (trace (snd (sendMessage cfg P envs a st))) =
          invocations (trace st) @ [a_retryCount a ..< a_retryCount a + n]"
    by (auto simp: runsFrom_def)
  moreover from b have "n \<le> Suc (MAX_RETRY_COUNT cfg)" by auto
  ultimately show ?thesis using b by blast
qed

lemma sample_run_invocations:
  "invocations (trace (snd (sendMessage sample_config sample_platform sample_envs sample_args sample_state)))
     = [0, 1, 2, 3]"
  by (simp add: sendMessage.simps handleApiError.simps attempt_defs handle_defs sample_values
        startsWith_def)

text \<open>
  With \<open>MAX_RETRY_COUNT = 3\<close> and an upstream service that always answers 401 while
  accounts remain, the request path is run four times, with the retry counts 0 to 3.
\<close>

theorem sendMessage_attempts_bounded_witness:
  "invocations (trace (snd (sendMessage sample_config sample_platform sample_envs sample_args sample_state)))
     = [0, 1, 2, 3]
   \<and> length (invocations (trace (snd (sendMessage sample_config sample_platform sample_envs sample_args
        sample_state)))) \<le> Suc (MAX_RETRY_COUNT sample_config)"
proof -
  from sendMessage_attempts_bounded [of sample_config sample_platform sample_envs sample_args sample_state]
  obtain n where "invocations (trace (snd (sendMessage sample_config sample_platform sample_envs
        sample_args sample_state))) = invocations (trace sample_state) @
          [a_retryCount sample_args ..< a_retryCount sample_args + n]"
    and "n \<le> Suc (MAX_RETRY_COUNT sample_config)"
    by blast
  then have "length (invocations (trace (snd (sendMessage sample_config sample_platform sample_envs
        sample_args sample_state)))) \<le> Suc (MAX_RETRY_COUNT sample_config)"
    by (simp add: sample_state_def)
  with sample_run_invocations show ?thesis by simp
qed

section \<open>Properties of the token check\<close>






section \<open>Properties of the model choice\<close>











end
